theory Spec2Isabelle
  imports Main "HOL-Library.Word"
begin

section \<open>Semantic versions\<close>

text \<open>
  The toggle code compares version strings with \<^verbatim>\<open>semver.Compare\<close> of the module
  \<^verbatim>\<open>golang.org/x/mod/semver\<close>, a dependency of the repository. The functions of this
  section follow that package function by function: strings are byte strings, an index
  \<^verbatim>\<open>v[i]\<close> is \<open>v ! i\<close> and is only read below \<open>length v\<close>, a slice \<^verbatim>\<open>v[a:b]\<close> is
  \<open>take (b - a) (drop a v)\<close>, and the triple \<^verbatim>\<open>(t, rest, ok)\<close> of the parsers is an
  option of a pair.
\<close>

definition isDigit :: "char \<Rightarrow> bool" where
  "isDigit c \<longleftrightarrow> (48::nat) \<le> of_char c \<and> of_char c \<le> (57::nat)"

definition isIdentChar :: "char \<Rightarrow> bool" where
  "isIdentChar c \<longleftrightarrow>
     (65::nat) \<le> of_char c \<and> of_char c \<le> (90::nat) \<or>
     (97::nat) \<le> of_char c \<and> of_char c \<le> (122::nat) \<or>
     (48::nat) \<le> of_char c \<and> of_char c \<le> (57::nat) \<or>
     c = CHR ''-''"

text \<open>Go's \<^verbatim>\<open><\<close> on strings: bytewise lexicographic order.\<close>

fun str_less :: "string \<Rightarrow> string \<Rightarrow> bool" where
  "str_less [] [] = False"
| "str_less [] (y # ys) = True"
| "str_less (x # xs) [] = False"
| "str_less (x # xs) (y # ys) =
     ((of_char x :: nat) < of_char y \<or> (x = y \<and> str_less xs ys))"

definition parseInt :: "string \<Rightarrow> (string \<times> string) option" where
  "parseInt v =
     (if v = [] then None
      else if \<not> isDigit (hd v) then None
      else let i = Suc (length (takeWhile isDigit (tl v))) in
        if hd v = CHR ''0'' \<and> i \<noteq> 1 then None
        else Some (take i v, drop i v))"

definition isBadNum :: "string \<Rightarrow> bool" where
  "isBadNum v =
     (let i = length (takeWhile isDigit v) in
      i = length v \<and> i > 1 \<and> hd v = CHR ''0'')"

definition isNum :: "string \<Rightarrow> bool" where
  "isNum v = (length (takeWhile isDigit v) = length v)"

text \<open>
  The scanning loop of \<^verbatim>\<open>parsePrerelease\<close>, with its two indices \<^verbatim>\<open>i\<close> and
  \<^verbatim>\<open>start\<close>; \<open>None\<close> is the early \<^verbatim>\<open>return\<close> with \<^verbatim>\<open>ok = false\<close>, \<open>Some\<close> the
  indices at loop exit.
\<close>

function prereleaseLoop :: "string \<Rightarrow> nat \<Rightarrow> nat \<Rightarrow> (nat \<times> nat) option" where
  "prereleaseLoop v i start =
     (if i < length v \<and> v ! i \<noteq> CHR ''+'' then
        (if \<not> isIdentChar (v ! i) \<and> v ! i \<noteq> CHR ''.'' then None
         else if v ! i = CHR ''.'' then
           (if start = i \<or> isBadNum (take (i - start) (drop start v)) then None
            else prereleaseLoop v (Suc i) (Suc i))
         else prereleaseLoop v (Suc i) start)
      else Some (i, start))"
  by pat_completeness auto
termination
  by (relation "measure (\<lambda>(v, i, start). length v - i)") auto

declare prereleaseLoop.simps [simp del]

definition parsePrerelease :: "string \<Rightarrow> (string \<times> string) option" where
  "parsePrerelease v =
     (if v = [] \<or> hd v \<noteq> CHR ''-'' then None
      else case prereleaseLoop v 1 1 of
        None \<Rightarrow> None
      | Some (i, start) \<Rightarrow>
          if start = i \<or> isBadNum (take (i - start) (drop start v)) then None
          else Some (take i v, drop i v))"

function buildLoop :: "string \<Rightarrow> nat \<Rightarrow> nat \<Rightarrow> (nat \<times> nat) option" where
  "buildLoop v i start =
     (if i < length v then
        (if \<not> isIdentChar (v ! i) \<and> v ! i \<noteq> CHR ''.'' then None
         else if v ! i = CHR ''.'' then
           (if start = i then None else buildLoop v (Suc i) (Suc i))
         else buildLoop v (Suc i) start)
      else Some (i, start))"
  by pat_completeness auto
termination
  by (relation "measure (\<lambda>(v, i, start). length v - i)") auto

declare buildLoop.simps [simp del]

definition parseBuild :: "string \<Rightarrow> (string \<times> string) option" where
  "parseBuild v =
     (if v = [] \<or> hd v \<noteq> CHR ''+'' then None
      else case buildLoop v 1 1 of
        None \<Rightarrow> None
      | Some (i, start) \<Rightarrow>
          if start = i then None else Some (take i v, drop i v))"

record parsed =
  major :: string
  minor :: string
  patch :: string
  short :: string
  prerelease :: string
  build :: string

definition parse :: "string \<Rightarrow> parsed option" where
  "parse v =
     (if v = [] \<or> hd v \<noteq> CHR ''v'' then None
      else case parseInt (tl v) of
        None \<Rightarrow> None
      | Some (mj, v1) \<Rightarrow>
     (if v1 = [] then
        Some \<lparr>major = mj, minor = ''0'', patch = ''0'', short = ''.0.0'',
              prerelease = [], build = []\<rparr>
      else if hd v1 \<noteq> CHR ''.'' then None
      else case parseInt (tl v1) of
        None \<Rightarrow> None
      | Some (mn, v2) \<Rightarrow>
     (if v2 = [] then
        Some \<lparr>major = mj, minor = mn, patch = ''0'', short = ''.0'',
              prerelease = [], build = []\<rparr>
      else if hd v2 \<noteq> CHR ''.'' then None
      else case parseInt (tl v2) of
        None \<Rightarrow> None
      | Some (pt, v3) \<Rightarrow>
     (case (if v3 \<noteq> [] \<and> hd v3 = CHR ''-'' then parsePrerelease v3
            else Some ([], v3)) of
        None \<Rightarrow> None
      | Some (pre, v4) \<Rightarrow>
     (case (if v4 \<noteq> [] \<and> hd v4 = CHR ''+'' then parseBuild v4
            else Some ([], v4)) of
        None \<Rightarrow> None
      | Some (bld, v5) \<Rightarrow>
          if v5 \<noteq> [] then None
          else Some \<lparr>major = mj, minor = mn, patch = pt, short = [],
                     prerelease = pre, build = bld\<rparr>)))))"

definition IsValid :: "string \<Rightarrow> bool" where
  "IsValid v \<longleftrightarrow> parse v \<noteq> None"

definition compareInt :: "string \<Rightarrow> string \<Rightarrow> int" where
  "compareInt x y =
     (if x = y then 0
      else if length x < length y then - 1
      else if length x > length y then 1
      else if str_less x y then - 1
      else 1)"

definition nextIdent :: "string \<Rightarrow> string \<times> string" where
  "nextIdent x =
     (let i = length (takeWhile (\<lambda>c. c \<noteq> CHR ''.'') x) in (take i x, drop i x))"

text \<open>
  The loop of \<^verbatim>\<open>comparePrerelease\<close>: each round drops the leading \<^verbatim>\<open>-\<close> or \<^verbatim>\<open>.\<close>
  of both strings and compares the next identifiers.
\<close>

function comparePrereleaseLoop :: "string \<Rightarrow> string \<Rightarrow> int" where
  "comparePrereleaseLoop x y =
     (if x \<noteq> [] \<and> y \<noteq> [] then
        (let (dx, x') = nextIdent (tl x);
             (dy, y') = nextIdent (tl y) in
         if dx \<noteq> dy then
           (let ix = isNum dx; iy = isNum dy in
            if ix \<noteq> iy then (if ix then - 1 else 1)
            else if ix \<and> length dx < length dy then - 1
            else if ix \<and> length dx > length dy then 1
            else if str_less dx dy then - 1
            else 1)
         else comparePrereleaseLoop x' y')
      else if x = [] then - 1
      else 1)"
  by pat_completeness auto
termination
  by (relation "measure (\<lambda>(x, y). length x)") (auto simp: nextIdent_def Let_def)

declare comparePrereleaseLoop.simps [simp del]

definition comparePrerelease :: "string \<Rightarrow> string \<Rightarrow> int" where
  "comparePrerelease x y =
     (if x = y then 0
      else if x = [] then 1
      else if y = [] then - 1
      else comparePrereleaseLoop x y)"

definition Compare :: "string \<Rightarrow> string \<Rightarrow> int" where
  "Compare v w =
     (case (parse v, parse w) of
        (None, None) \<Rightarrow> 0
      | (None, Some pw) \<Rightarrow> - 1
      | (Some pv, None) \<Rightarrow> 1
      | (Some pv, Some pw) \<Rightarrow>
          (let c = compareInt (major pv) (major pw) in
           if c \<noteq> 0 then c
           else let c = compareInt (minor pv) (minor pw) in
           if c \<noteq> 0 then c
           else let c = compareInt (patch pv) (patch pw) in
           if c \<noteq> 0 then c
           else comparePrerelease (prerelease pv) (prerelease pw)))"

section \<open>Overrides and toggles\<close>

text \<open>
  A toggle value is a Go \<^verbatim>\<open>interface{}\<close>. The code only inspects its dynamic type, so
  the model keeps the nil interface, the three types the switch of \<^verbatim>\<open>IsValidValue\<close>
  names (a \<^verbatim>\<open>float64\<close> as its 64 bits) and, for a value of any other dynamic type, the
  string \<^verbatim>\<open>reflect.Type.String()\<close> gives for it (for instance \<^verbatim>\<open>[]interface {}\<close> for
  a decoded JSON array).
\<close>

datatype gvalue =
  VNil
| VBool bool
| VString string
| VFloat64 "64 word"
| VOther string

text \<open>A call either returns or panics.\<close>

datatype 'a result = Returns 'a | Panics

text \<open>
  \<^verbatim>\<open>reflect.TypeOf(value)\<close> is the nil \<^verbatim>\<open>Type\<close> for the nil interface (\<open>None\<close>);
  \<^verbatim>\<open>String()\<close> on it is a nil dereference.
\<close>

fun reflect_TypeOf :: "gvalue \<Rightarrow> string option" where
  "reflect_TypeOf VNil = None"
| "reflect_TypeOf (VBool b) = Some ''bool''"
| "reflect_TypeOf (VString s) = Some ''string''"
| "reflect_TypeOf (VFloat64 w) = Some ''float64''"
| "reflect_TypeOf (VOther n) = Some n"

text \<open>
  \<^verbatim>\<open>Overrides\<close> is a slice of pointers; the model stores the overrides themselves, so
  every element is a non-nil pointer and no two elements alias. The two
  \<^verbatim>\<open>*Version\<close> fields of the older \<^verbatim>\<open>Override\<close> struct carry the tag \<^verbatim>\<open>json:"-"\<close>
  and are read by none of the functions below; they are left out. Several structs have a
  field \<^verbatim>\<open>Value\<close> or \<^verbatim>\<open>Name\<close>; the selectors are written with the struct's name,
  \<open>Override.Value\<close>, \<open>Toggle.Value\<close>.
\<close>

record Override =
  MinimumVersion :: string
  MaximumVersion :: string
  Value :: gvalue

type_synonym ToggleType = string

definition booleanType :: ToggleType where "booleanType = ''boolean''"
definition stringType :: ToggleType where "stringType = ''string''"
definition numberType :: ToggleType where "numberType = ''number''"
definition customType :: ToggleType where "customType = ''custom''"

record Toggle =
  Name :: string
  Type :: ToggleType
  Value :: gvalue
  Overrides :: "Override list"

definition IsValidValue :: "Toggle \<Rightarrow> gvalue \<Rightarrow> bool result" where
  "IsValidValue t v =
     (case reflect_TypeOf v of
        None \<Rightarrow> Panics
      | Some typeOfValue \<Rightarrow>
          Returns
            (if typeOfValue = ''bool'' then Type t = booleanType
             else if typeOfValue = ''string'' then Type t = stringType
             else if typeOfValue = ''float64'' then Type t = numberType
             else False))"

text \<open>
  The errors \<^verbatim>\<open>Toggle.UnmarshalJSON\<close> returns, one constructor for each
  \<^verbatim>\<open>fmt.Errorf\<close> with the arguments of its format string, and one for the error of
  \<^verbatim>\<open>json.Unmarshal\<close>.
\<close>

datatype toggle_error =
  DecodeError string
| ValueNotOfType gvalue ToggleType string
| MaximumGreaterThanNextMinimum string string
| OverrideValueNotOfType gvalue ToggleType string

text \<open>
  The loop over \<^verbatim>\<open>t.Overrides\<close> with its variable \<^verbatim>\<open>previous\<close> (\<open>None\<close> is the nil
  pointer). \<open>Returns None\<close> is the return of a nil error.
\<close>

fun checkOverrides ::
  "Toggle \<Rightarrow> Override option \<Rightarrow> Override list \<Rightarrow> toggle_error option result" where
  "checkOverrides t previous [] = Returns None"
| "checkOverrides t previous (override # rest) =
     (case (case previous of
              None \<Rightarrow> None
            | Some p \<Rightarrow>
                if Compare (MaximumVersion p) (MinimumVersion override) = 1 then Some p
                else None) of
        Some p \<Rightarrow>
          Returns (Some (MaximumGreaterThanNextMinimum
                           (MaximumVersion p) (MinimumVersion override)))
      | None \<Rightarrow>
          (case IsValidValue t (Override.Value override) of
             Panics \<Rightarrow> Panics
           | Returns ok \<Rightarrow>
               if \<not> ok then
                 Returns (Some (OverrideValueNotOfType
                                  (Override.Value override) (Type t) (Toggle.Name t)))
               else checkOverrides t (Some override) rest))"

text \<open>
  The part of \<^verbatim>\<open>Toggle.UnmarshalJSON\<close> that follows the assignment
  \<^verbatim>\<open>*t = alias.toToggle()\<close>: the validation of the decoded toggle.
\<close>

definition validate :: "Toggle \<Rightarrow> toggle_error option result" where
  "validate t =
     (case IsValidValue t (Toggle.Value t) of
        Panics \<Rightarrow> Panics
      | Returns ok \<Rightarrow>
          if \<not> ok then Returns (Some (ValueNotOfType (Toggle.Value t) (Type t) (Toggle.Name t)))
          else checkOverrides t None (Overrides t))"

text \<open>
  \<^verbatim>\<open>Toggle.UnmarshalJSON\<close>, with the receiver passed in and out. The decoder
  \<^verbatim>\<open>json.Unmarshal(b, &alias)\<close> of the standard library is the parameter
  \<open>json_Unmarshal\<close>: it gives an error message or the decoded \<^verbatim>\<open>toggleAlias\<close>. The
  receiver is overwritten as soon as decoding succeeds, before validation.
\<close>

type_synonym bytes = "8 word list"

definition Toggle_UnmarshalJSON ::
  "(bytes \<Rightarrow> string + Toggle) \<Rightarrow> Toggle \<Rightarrow> bytes \<Rightarrow> Toggle \<times> toggle_error option result" where
  "Toggle_UnmarshalJSON json_Unmarshal t b =
     (case json_Unmarshal b of
        Inl err \<Rightarrow> (t, Returns (Some (DecodeError err)))
      | Inr alias \<Rightarrow> (alias, validate alias))"

text \<open>
  The condition of the \<^verbatim>\<open>if\<close> in the loop of \<^verbatim>\<open>GetOverride\<close>: the test whether the
  range of an override holds a version.
\<close>

definition rangeContains :: "Override \<Rightarrow> string \<Rightarrow> bool" where
  "rangeContains override version \<longleftrightarrow>
     Compare (MinimumVersion override) version \<le> 0
     \<and> Compare (MaximumVersion override) version \<ge> 0"

text \<open>The loop of \<^verbatim>\<open>GetOverride\<close> over \<^verbatim>\<open>t.Overrides\<close>; \<open>None\<close> is the nil result.\<close>

fun GetOverrideIn :: "Override list \<Rightarrow> string \<Rightarrow> Override option" where
  "GetOverrideIn [] version = None"
| "GetOverrideIn (override # rest) version =
     (if rangeContains override version then Some override
      else GetOverrideIn rest version)"

definition GetOverride :: "Toggle \<Rightarrow> string \<Rightarrow> Override option" where
  "GetOverride t version = GetOverrideIn (Overrides t) version"

definition GetValueAt :: "Toggle \<Rightarrow> string \<Rightarrow> gvalue" where
  "GetValueAt t version =
     (if version \<noteq> [] then
        (case GetOverride t version of
           Some override \<Rightarrow> Override.Value override
         | None \<Rightarrow> Toggle.Value t)
      else Toggle.Value t)"

section \<open>Chambers and the offline build\<close>

text \<open>
  Modelled from the spec: the struct \<^verbatim>\<open>Chamber\<close> is declared in a file of the package
  that is not among the sources. Its fields are those the spec lists and those
  \<^verbatim>\<open>compile\<close>, the handler and the initial value of \<^verbatim>\<open>globalChamber\<close> use: a name, the
  two flags, a map from toggle names to toggles and the list of owned children (a tree
  built from a document, so without sharing).
\<close>

type_synonym toggles = "string \<rightharpoonup> Toggle"

datatype Chamber =
  Chamber (Name: string) (Buildable: bool) (App: bool) (Toggles: toggles)
    (Children: "Chamber list")

text \<open>The assignments \<^verbatim>\<open>c.Toggles = ts\<close> and \<^verbatim>\<open>c.Children = cs\<close>.\<close>

fun assignToggles :: "Chamber \<Rightarrow> toggles \<Rightarrow> Chamber" where
  "assignToggles (Chamber n b a ts cs) ts' = Chamber n b a ts' cs"

fun assignChildren :: "Chamber \<Rightarrow> Chamber list \<Rightarrow> Chamber" where
  "assignChildren (Chamber n b a ts cs) cs' = Chamber n b a ts cs'"

text \<open>The number of nodes of a tree; it does not depend on the toggles.\<close>

fun nodes :: "Chamber \<Rightarrow> nat" where
  "nodes (Chamber n b a ts cs) = Suc (sum_list (map nodes cs))"

text \<open>
  \<^verbatim>\<open>compile\<close> walks the tree it is given by pointer and overwrites the \<^verbatim>\<open>Toggles\<close> field of
  every descendant; the model returns the tree after the walk together with the calls
  of \<^verbatim>\<open>utils.WriteChamberToFile(file, *parent, true)\<close> in the order they are made, each
  with the file name and the chamber value passed. The method \<^verbatim>\<open>InheritWith\<close> of
  \<^verbatim>\<open>Chamber\<close> is not among the sources and is the parameter \<open>InheritWith\<close>: it takes
  the receiver and the parent's toggles and gives the new map. \<open>compileChildren\<close>
  is the \<^verbatim>\<open>for i := range parent.Children\<close> loop from index \<open>i\<close> on; \<open>pt\<close> is
  \<^verbatim>\<open>parent.Toggles\<close>, which nothing assigns during the loop.
\<close>

function
  compile :: "(Chamber \<Rightarrow> toggles \<Rightarrow> toggles) \<Rightarrow> Chamber \<Rightarrow> Chamber \<times> (string \<times> Chamber) list"
and
  compileChildren :: "(Chamber \<Rightarrow> toggles \<Rightarrow> toggles) \<Rightarrow> toggles \<Rightarrow> Chamber list
    \<Rightarrow> Chamber list \<times> (string \<times> Chamber) list"
where
  "compile InheritWith parent =
     (let written =
            (if Buildable parent \<or> App parent
             then [(''./'' @ Chamber.Name parent @ ''.json'', parent)]
             else []);
          (children, written') =
            compileChildren InheritWith (Toggles parent) (Children parent)
      in (assignChildren parent children, written @ written'))"
| "compileChildren InheritWith pt [] = ([], [])"
| "compileChildren InheritWith pt (child # rest) =
     (let built = InheritWith child pt;
          child' = assignToggles child built;
          (child'', written) = compile InheritWith child';
          (rest', written') = compileChildren InheritWith pt rest
      in (child'' # rest', written @ written'))"
  by pat_completeness auto
termination
proof (relation "measure (\<lambda>x. case x of
          Inl (f, c) \<Rightarrow> 2 * nodes c
        | Inr (f, pt, cs) \<Rightarrow> 2 * sum_list (map nodes cs) + 1)")
  show "wf (measure (\<lambda>x. case x of
          Inl (f, c) \<Rightarrow> 2 * nodes c
        | Inr (f, pt, cs) \<Rightarrow> 2 * sum_list (map nodes cs) + 1))"
    by simp
next
  fix InheritWith :: "Chamber \<Rightarrow> toggles \<Rightarrow> toggles" and parent :: Chamber
    and x :: "(string \<times> Chamber) list"
  show "(Inr (InheritWith, Toggles parent, Children parent), Inl (InheritWith, parent))
    \<in> measure (\<lambda>x. case x of
          Inl (f, c) \<Rightarrow> 2 * nodes c
        | Inr (f, pt, cs) \<Rightarrow> 2 * sum_list (map nodes cs) + 1)"
    by (cases parent) simp
next
  fix InheritWith :: "Chamber \<Rightarrow> toggles \<Rightarrow> toggles" and pt :: toggles
    and child :: Chamber and rest :: "Chamber list" and x :: toggles and xa :: Chamber
  assume "x = InheritWith child pt" and "xa = assignToggles child x"
  then show "(Inl (InheritWith, xa), Inr (InheritWith, pt, child # rest))
    \<in> measure (\<lambda>x. case x of
          Inl (f, c) \<Rightarrow> 2 * nodes c
        | Inr (f, pt, cs) \<Rightarrow> 2 * sum_list (map nodes cs) + 1)"
    by (cases child) simp
next
  fix InheritWith :: "Chamber \<Rightarrow> toggles \<Rightarrow> toggles" and pt :: toggles
    and child :: Chamber and rest :: "Chamber list"
  show "(Inr (InheritWith, pt, rest), Inr (InheritWith, pt, child # rest))
    \<in> measure (\<lambda>x. case x of
          Inl (f, c) \<Rightarrow> 2 * nodes c
        | Inr (f, pt, cs) \<Rightarrow> 2 * sum_list (map nodes cs) + 1)"
    by (cases child) simp
qed

declare compile.simps [simp del]

section \<open>The HTTP handler\<close>

text \<open>
  A Go \<^verbatim>\<open>error\<close> value, as far as the handler looks at it: its message
  \<^verbatim>\<open>err.Error()\<close>, and the answers of \<^verbatim>\<open>errors.As(err, &nfError)\<close> for a
  \<^verbatim>\<open>*storage.NotFoundError\<close>, of \<^verbatim>\<open>errors.Is(err, io.EOF)\<close> and of
  \<^verbatim>\<open>errors.Is(err, os.ErrNotExist)\<close>.
\<close>

record go_error =
  Error :: string
  AsNotFoundError :: bool
  IsEOF :: bool
  IsErrNotExist :: bool

record StorageEntry =
  Key :: string
  Value :: bytes

text \<open>
  The interface \<^verbatim>\<open>storage.Storage\<close>: four operations on a backend whose state \<open>'s\<close>
  they may change. A method that returns a value and an error returns one of the two.
\<close>

record 's Storage =
  Get :: "string \<Rightarrow> 's \<Rightarrow> (go_error + StorageEntry) \<times> 's"
  Put :: "StorageEntry \<Rightarrow> 's \<Rightarrow> go_error option \<times> 's"
  Delete :: "string \<Rightarrow> 's \<Rightarrow> go_error option \<times> 's"
  List :: "string \<Rightarrow> 's \<Rightarrow> (go_error + string list) \<times> 's"

datatype storage_call =
  GetCall string
| PutCall StorageEntry
| DeleteCall string
| ListCall string

text \<open>
  The functions the handler calls that are not among the sources are parameters:
  \<^verbatim>\<open>json.Unmarshal(entry.Value, &c)\<close> into a \<^verbatim>\<open>realm.Chamber\<close>;
  \<^verbatim>\<open>utils.ReadInterfaceWith(tr, &c)\<close>, which reads from the reader it is given and
  decodes, and so gives the number of bytes it has read from the request body together
  with its result; and \<^verbatim>\<open>utils.EnsureTrailingSlash\<close>. Decoding a chamber runs
  \<^verbatim>\<open>Toggle.UnmarshalJSON\<close> on every toggle of the document, so each of the two decoders
  either returns, with an error or a chamber, or panics.
\<close>

record collaborators =
  json_Unmarshal :: "bytes \<Rightarrow> (go_error + Chamber) result"
  ReadInterfaceWith :: "bytes \<Rightarrow> nat \<times> (go_error + Chamber) result"
  EnsureTrailingSlash :: "string \<Rightarrow> string"

record Request =
  Method :: string
  URLPath :: string
  Body :: bytes

datatype response_data = ChamberData Chamber | NamesData "string list"

text \<open>
  \<^verbatim>\<open>OperationResponse\<close>: \<open>Data = None\<close> is the nil \<^verbatim>\<open>any\<close>. Both fields are
  \<^verbatim>\<open>omitempty\<close>, so an envelope with no data and the empty error string is the empty
  envelope.
\<close>

record OperationResponse =
  Data :: "response_data option"
  Error :: string

text \<open>
  What \<^verbatim>\<open>handleResponse\<close> does to the \<^verbatim>\<open>ResponseWriter\<close>: the content type, the status
  code and the envelope it hands to \<^verbatim>\<open>utils.WriteInterfaceWith\<close> for serialisation. That
  function is not among the sources; the bytes it writes, and the \<^verbatim>\<open>http.Error\<close> that
  follows its failure, are left out.
\<close>

record Response =
  ContentType :: string
  StatusCode :: nat
  Envelope :: OperationResponse

definition handleResponse :: "nat \<Rightarrow> response_data option \<Rightarrow> string \<Rightarrow> Response" where
  "handleResponse statusCode data error =
     \<lparr>ContentType = ''application/json'', StatusCode = statusCode,
      Envelope =
        \<lparr>Data = (case data of None \<Rightarrow> None | Some d \<Rightarrow> Some d),
         OperationResponse.Error = (if error \<noteq> [] then error else [])\<rparr>\<rparr>"

definition StatusNotFound :: nat where "StatusNotFound = 404"
definition StatusInternalServerError :: nat where "StatusInternalServerError = 500"
definition StatusOK :: nat where "StatusOK = 200"
definition StatusBadRequest :: nat where "StatusBadRequest = 400"
definition StatusCreated :: nat where "StatusCreated = 201"
definition StatusMethodNotAllowed :: nat where "StatusMethodNotAllowed = 405"

text \<open>\<^verbatim>\<open>http.StatusText\<close> on the codes the handler passes to it.\<close>

definition StatusText :: "nat \<Rightarrow> string" where
  "StatusText code =
     (if code = 400 then ''Bad Request''
      else if code = 404 then ''Not Found''
      else if code = 405 then ''Method Not Allowed''
      else if code = 500 then ''Internal Server Error''
      else [])"

definition HasPrefix :: "string \<Rightarrow> string \<Rightarrow> bool" where
  "HasPrefix s prefix \<longleftrightarrow>
     length s \<ge> length prefix \<and> take (length prefix) s = prefix"

definition TrimPrefix :: "string \<Rightarrow> string \<Rightarrow> string" where
  "TrimPrefix s prefix = (if HasPrefix s prefix then drop (length prefix) s else s)"

text \<open>
  \<^verbatim>\<open>fmt.Sprintf("path cannot be %q", path)\<close>; the handler reaches it only with the
  path \<^verbatim>\<open>/\<close>, which \<^verbatim>\<open>%q\<close> puts between double quotes unchanged.
\<close>

definition quoted :: "string \<Rightarrow> string" where
  "quoted s = [CHR 0x22] @ s @ [CHR 0x22]"

definition pathCannotBe :: "string \<Rightarrow> string" where
  "pathCannotBe path = ''path cannot be '' @ quoted path"

text \<open>
  What one request leaves behind: the response written, the calls made to the storage
  in order, the lines given to \<^verbatim>\<open>requestLogger.Error\<close>, and the backend's state. The
  response is \<open>None\<close> when the function panics before it calls \<^verbatim>\<open>handleResponse\<close>: the
  panic unwinds the handler and nothing is written.
\<close>

record 's outcome =
  response :: "Response option"
  calls :: "storage_call list"
  logged :: "string list"
  backend :: 's

text \<open>
  The function registered for \<^verbatim>\<open>/v1/\<close>. In the \<^verbatim>\<open>POST\<close> case the body is read
  through \<^verbatim>\<open>io.TeeReader(r.Body, buf)\<close>, so \<^verbatim>\<open>buf\<close> holds the bytes
  \<^verbatim>\<open>ReadInterfaceWith\<close> has read: the first \<open>n\<close> bytes of the body.
\<close>

definition handle :: "collaborators \<Rightarrow> 's Storage \<Rightarrow> Request \<Rightarrow> 's \<Rightarrow> 's outcome" where
  "handle env strg r s =
     (let path = TrimPrefix (URLPath r) ''/v1'' in
      if Method r = ''GET'' then
        (if path = ''/'' then
           (let errStr = pathCannotBe path in
            \<lparr>response = Some (handleResponse StatusNotFound None errStr),
             calls = [], logged = [errStr], backend = s\<rparr>)
         else
           (case Get strg path s of
              (Inl err, s') \<Rightarrow>
                (let msg = go_error.Error err in
                 \<lparr>response = Some (handleResponse StatusNotFound None
                    (if AsNotFoundError err then StatusText StatusNotFound else msg)),
                  calls = [GetCall path], logged = [msg], backend = s'\<rparr>)
            | (Inr entry, s') \<Rightarrow>
                (case json_Unmarshal env (StorageEntry.Value entry) of
                   Panics \<Rightarrow>
                     \<lparr>response = None,
                      calls = [GetCall path], logged = [], backend = s'\<rparr>
                 | Returns (Inl err) \<Rightarrow>
                     \<lparr>response = Some (handleResponse StatusInternalServerError None
                        (StatusText StatusInternalServerError)),
                      calls = [GetCall path], logged = [go_error.Error err], backend = s'\<rparr>
                 | Returns (Inr c) \<Rightarrow>
                     \<lparr>response = Some (handleResponse StatusOK (Some (ChamberData c)) []),
                      calls = [GetCall path], logged = [], backend = s'\<rparr>)))
      else if Method r = ''POST'' then
        (case ReadInterfaceWith env (Body r) of
           (n, Panics) \<Rightarrow>
             \<lparr>response = None, calls = [], logged = [], backend = s\<rparr>
         | (n, Returns (Inl err)) \<Rightarrow>
             \<lparr>response = Some (handleResponse StatusBadRequest None
                (if IsEOF err then ''Request body must not be empty''
                 else StatusText StatusBadRequest)),
              calls = [], logged = [go_error.Error err], backend = s\<rparr>
         | (n, Returns (Inr c)) \<Rightarrow>
             (let buf = take n (Body r);
                  entry = \<lparr>Key = EnsureTrailingSlash env path @ Chamber.Name c,
                           StorageEntry.Value = buf\<rparr> in
              case Put strg entry s of
                (Some err, s') \<Rightarrow>
                  \<lparr>response = Some (handleResponse StatusInternalServerError None
                     (go_error.Error err)),
                   calls = [PutCall entry], logged = [go_error.Error err], backend = s'\<rparr>
              | (None, s') \<Rightarrow>
                  \<lparr>response = Some (handleResponse StatusCreated None []),
                   calls = [PutCall entry], logged = [], backend = s'\<rparr>))
      else if Method r = ''DELETE'' then
        (case Delete strg path s of
           (Some err, s') \<Rightarrow>
             \<lparr>response =
                Some (if AsNotFoundError err
                 then handleResponse StatusNotFound None (StatusText StatusNotFound)
                 else handleResponse StatusInternalServerError None (go_error.Error err)),
              calls = [DeleteCall path], logged = [go_error.Error err], backend = s'\<rparr>
         | (None, s') \<Rightarrow>
             \<lparr>response = Some (handleResponse StatusOK None []),
              calls = [DeleteCall path], logged = [], backend = s'\<rparr>)
      else if Method r = ''LIST'' then
        (case List strg path s of
           (Inl err, s') \<Rightarrow>
             \<lparr>response =
                Some (if IsErrNotExist err
                 then handleResponse StatusNotFound None (StatusText StatusNotFound)
                 else handleResponse StatusInternalServerError None (go_error.Error err)),
              calls = [ListCall path], logged = [go_error.Error err], backend = s'\<rparr>
         | (Inr names, s') \<Rightarrow>
             \<lparr>response = Some (handleResponse StatusOK (Some (NamesData names)) []),
              calls = [ListCall path], logged = [], backend = s'\<rparr>)
      else
        \<lparr>response = Some (handleResponse StatusMethodNotAllowed None
           (StatusText StatusMethodNotAllowed)),
         calls = [], logged = [], backend = s\<rparr>)"

section \<open>The specification's reading of containment\<close>

text \<open>
  The specification's \<^verbatim>\<open>contains(version)\<close>, in its own words: true iff
  \<^verbatim>\<open>minVersion \<le> version \<le> maxVersion\<close>, an empty endpoint being unbounded in its
  direction. \<open>a \<le> b\<close> is \<open>Compare a b \<le> 0\<close>.
\<close>

definition spec_contains :: "Override \<Rightarrow> string \<Rightarrow> bool" where
  "spec_contains override version \<longleftrightarrow>
     (MinimumVersion override = [] \<or> Compare (MinimumVersion override) version \<le> 0) \<and>
     (MaximumVersion override = [] \<or> Compare version (MaximumVersion override) \<le> 0)"

section \<open>The specification's reading of the build\<close>

text \<open>
  The specification's \<^verbatim>\<open>compile\<close>, in its own words: a depth-first traversal that
  carries the current, already merged toggle set of the node. If the node is buildable
  or an app, that set is emitted to the artifact named after the node; then each child,
  in stored order, is traversed with the set \<^verbatim>\<open>child.inheritWith(current)\<close>. The
  result lists the artifacts in the order they are emitted.
\<close>

fun spec_compile ::
  "(Chamber \<Rightarrow> toggles \<Rightarrow> toggles) \<Rightarrow> toggles \<Rightarrow> Chamber \<Rightarrow> (string \<times> toggles) list" where
  "spec_compile inheritWith current (Chamber n b a ts cs) =
     (if b \<or> a then [(n @ ''.json'', current)] else []) @
     concat (map (\<lambda>child. spec_compile inheritWith (inheritWith child current) child) cs)"

section \<open>Example inputs\<close>

text \<open>The toggle of the specification's scenario, and the same toggle without overrides.\<close>

definition scenarioToggle :: Toggle where
  "scenarioToggle =
     \<lparr>Toggle.Name = ''feature'', Type = ''boolean'', Toggle.Value = VBool True,
      Overrides =
        [\<lparr>MinimumVersion = ''v1.0.0'', MaximumVersion = ''v1.5.0'',
          Override.Value = VBool False\<rparr>]\<rparr>"

definition plainToggle :: Toggle where
  "plainToggle =
     \<lparr>Toggle.Name = ''feature'', Type = ''boolean'', Toggle.Value = VBool True, Overrides = []\<rparr>"

text \<open>A boolean toggle with a string value and two overrides that are apart.\<close>

definition mistypedToggle :: Toggle where
  "mistypedToggle =
     \<lparr>Toggle.Name = ''feature'', Type = ''boolean'', Toggle.Value = VString ''oops'',
      Overrides =
        [\<lparr>MinimumVersion = ''v1.0.0'', MaximumVersion = ''v1.5.0'',
          Override.Value = VBool False\<rparr>,
         \<lparr>MinimumVersion = ''v2.0.0'', MaximumVersion = ''v3.0.0'',
          Override.Value = VBool False\<rparr>]\<rparr>"

text \<open>
  Three overrides; the middle one has its endpoints the wrong way round, so each
  neighbouring pair passes the check while the first reaches beyond the start of the
  third.
\<close>

definition crossedToggle :: Toggle where
  "crossedToggle =
     \<lparr>Toggle.Name = ''feature'', Type = ''boolean'', Toggle.Value = VBool True,
      Overrides =
        [\<lparr>MinimumVersion = ''v1.0.0'', MaximumVersion = ''v5.0.0'',
          Override.Value = VBool False\<rparr>,
         \<lparr>MinimumVersion = ''v6.0.0'', MaximumVersion = ''v2.0.0'',
          Override.Value = VBool False\<rparr>,
         \<lparr>MinimumVersion = ''v3.0.0'', MaximumVersion = ''v4.0.0'',
          Override.Value = VBool False\<rparr>]\<rparr>"

text \<open>Two overrides whose ranges overlap, and two that share the endpoint v2.0.0.\<close>

definition overlappingToggle :: Toggle where
  "overlappingToggle =
     \<lparr>Toggle.Name = ''feature'', Type = ''boolean'', Toggle.Value = VBool True,
      Overrides =
        [\<lparr>MinimumVersion = ''v1.0.0'', MaximumVersion = ''v3.0.0'',
          Override.Value = VBool False\<rparr>,
         \<lparr>MinimumVersion = ''v2.0.0'', MaximumVersion = ''v4.0.0'',
          Override.Value = VBool True\<rparr>]\<rparr>"

definition touchingToggle :: Toggle where
  "touchingToggle =
     \<lparr>Toggle.Name = ''feature'', Type = ''boolean'', Toggle.Value = VBool True,
      Overrides =
        [\<lparr>MinimumVersion = ''v1.0.0'', MaximumVersion = ''v2.0.0'',
          Override.Value = VBool False\<rparr>,
         \<lparr>MinimumVersion = ''v2.0.0'', MaximumVersion = ''v3.0.0'',
          Override.Value = VBool True\<rparr>]\<rparr>"

text \<open>Overrides with one empty endpoint.\<close>

definition openEnded :: Override where
  "openEnded =
     \<lparr>MinimumVersion = ''v1.0.0'', MaximumVersion = [], Override.Value = VBool False\<rparr>"

definition openStart :: Override where
  "openStart =
     \<lparr>MinimumVersion = [], MaximumVersion = ''v1.5.0'', Override.Value = VBool False\<rparr>"

text \<open>Toggles decoded from documents with a JSON \<^verbatim>\<open>null\<close> value.\<close>

definition customNullToggle :: Toggle where
  "customNullToggle =
     \<lparr>Toggle.Name = ''feature'', Type = ''custom'', Toggle.Value = VNil, Overrides = []\<rparr>"

definition nullValueToggle :: Toggle where
  "nullValueToggle =
     \<lparr>Toggle.Name = ''feature'', Type = ''boolean'', Toggle.Value = VNil, Overrides = []\<rparr>"




text \<open>
  Modelled from the spec: the method \<^verbatim>\<open>InheritWith\<close> of \<^verbatim>\<open>Chamber\<close>, which is not among
  the sources. It gives a new map with every entry of the parent's toggles, overwritten
  and extended by the chamber's own. It serves as the instance in the examples.
\<close>

definition inheritWith :: "Chamber \<Rightarrow> toggles \<Rightarrow> toggles" where
  "inheritWith c parentToggles = parentToggles ++ Toggles c"

text \<open>
  A tree of four chambers: a buildable root with an app that has a leaf which is
  neither buildable nor an app, and a buildable library.
\<close>

definition leafChamber :: Chamber where
  "leafChamber = Chamber ''leaf'' False False [''c'' \<mapsto> plainToggle] []"

definition appChamber :: Chamber where
  "appChamber = Chamber ''app'' False True [''b'' \<mapsto> scenarioToggle] [leafChamber]"

definition libChamber :: Chamber where
  "libChamber = Chamber ''lib'' True False Map.empty []"

definition rootChamber :: Chamber where
  "rootChamber = Chamber ''root'' True False [''a'' \<mapsto> plainToggle] [appChamber, libChamber]"

text \<open>The document of the specification's \<^verbatim>\<open>POST\<close> scenario and the chamber it decodes to.\<close>

definition billingDocument :: string where
  "billingDocument =
     ''{'' @ quoted ''name'' @ '':'' @ quoted ''billing'' @ '','' @ quoted ''toggles'' @ '':{}}''"

definition billingBytes :: bytes where
  "billingBytes = map of_char billingDocument"

definition billingChamber :: Chamber where
  "billingChamber = Chamber ''billing'' False False Map.empty []"

definition notFoundError :: go_error where
  "notFoundError =
     \<lparr>go_error.Error = ''no entry for key'', AsNotFoundError = True, IsEOF = False,
      IsErrNotExist = False\<rparr>"

definition diskError :: go_error where
  "diskError =
     \<lparr>go_error.Error = ''disk failure'', AsNotFoundError = False, IsEOF = False,
      IsErrNotExist = False\<rparr>"

definition eofError :: go_error where
  "eofError =
     \<lparr>go_error.Error = ''EOF'', AsNotFoundError = False, IsEOF = True,
      IsErrNotExist = False\<rparr>"

definition syntaxError :: go_error where
  "syntaxError =
     \<lparr>go_error.Error = ''invalid character'', AsNotFoundError = False, IsEOF = False,
      IsErrNotExist = False\<rparr>"

text \<open>
  A storage that keeps its entries in an association list, and one whose every operation
  fails with a disk error.
\<close>

definition memoryStorage :: "(string \<times> bytes) list Storage" where
  "memoryStorage =
     \<lparr>Get = (\<lambda>path s. case map_of s path of
                 None \<Rightarrow> (Inl notFoundError, s)
               | Some v \<Rightarrow> (Inr \<lparr>Key = path, StorageEntry.Value = v\<rparr>, s)),
      Put = (\<lambda>entry s. (None, (Key entry, StorageEntry.Value entry) # s)),
      Delete = (\<lambda>path s. case map_of s path of
                 None \<Rightarrow> (Some notFoundError, s)
               | Some v \<Rightarrow> (None, filter (\<lambda>kv. fst kv \<noteq> path) s)),
      List = (\<lambda>path s. (Inr (map fst s), s))\<rparr>"

definition brokenStorage :: "(string \<times> bytes) list Storage" where
  "brokenStorage =
     \<lparr>Get = (\<lambda>path s. (Inl diskError, s)),
      Put = (\<lambda>entry s. (Some diskError, s)),
      Delete = (\<lambda>path s. (Some diskError, s)),
      List = (\<lambda>path s. (Inl diskError, s))\<rparr>"

text \<open>
  Collaborators that accept the billing document only. \<open>wholeBody\<close> reads the request
  body to its end. \<open>firstBlock\<close> reads the body in blocks of 512 bytes, the size of the
  first read of the decoder of \<^verbatim>\<open>encoding/json\<close>, and returns once the bytes read hold
  the document.
\<close>

definition ensureTrailingSlash :: "string \<Rightarrow> string" where
  "ensureTrailingSlash s = (if s \<noteq> [] \<and> last s = CHR ''/'' then s else s @ ''/'')"

definition wholeBody :: collaborators where
  "wholeBody =
     \<lparr>json_Unmarshal = (\<lambda>b.
        if b = billingBytes then Returns (Inr billingChamber) else Returns (Inl syntaxError)),
      ReadInterfaceWith = (\<lambda>body.
        if body = [] then (0, Returns (Inl eofError))
        else if body = billingBytes then (length body, Returns (Inr billingChamber))
        else (length body, Returns (Inl syntaxError))),
      EnsureTrailingSlash = ensureTrailingSlash\<rparr>"

definition firstBlock :: collaborators where
  "firstBlock =
     \<lparr>json_Unmarshal = (\<lambda>b.
        if b = billingBytes then Returns (Inr billingChamber) else Returns (Inl syntaxError)),
      ReadInterfaceWith = (\<lambda>body.
        if body = [] then (0, Returns (Inl eofError))
        else if take (length billingBytes) body = billingBytes
          then (min (length body) 512, Returns (Inr billingChamber))
        else (length body, Returns (Inl syntaxError))),
      EnsureTrailingSlash = ensureTrailingSlash\<rparr>"

text \<open>The billing document followed by 600 spaces.\<close>

definition paddedBody :: bytes where
  "paddedBody = billingBytes @ replicate 600 0x20"

text \<open>
  A chamber document with one toggle whose value is \<^verbatim>\<open>null\<close>, and collaborators that
  know this document and the billing document. On the former they do what decoding a
  chamber does with each of its toggles: they run the validation of
  \<^verbatim>\<open>Toggle.UnmarshalJSON\<close> on the decoded toggle, return its error if it returns one,
  and panic if it panics.
\<close>

definition nullDocument :: string where
  "nullDocument =
     ''{'' @ quoted ''name'' @ '':'' @ quoted ''billing'' @ '','' @ quoted ''toggles'' @ '':{'' @
     quoted ''feature'' @ '':{'' @ quoted ''name'' @ '':'' @ quoted ''feature'' @ '','' @
     quoted ''type'' @ '':'' @ quoted ''boolean'' @ '','' @ quoted ''value'' @ '':null}}}''"

definition nullDocumentBytes :: bytes where
  "nullDocumentBytes = map of_char nullDocument"

definition nullChamber :: Chamber where
  "nullChamber = Chamber ''billing'' False False [''feature'' \<mapsto> nullValueToggle] []"

definition decodeKnown :: "bytes \<Rightarrow> (go_error + Chamber) result" where
  "decodeKnown b =
     (if b = billingBytes then Returns (Inr billingChamber)
      else if b = nullDocumentBytes then
        (case snd (Toggle_UnmarshalJSON (\<lambda>x. Inr nullValueToggle) plainToggle b) of
           Panics \<Rightarrow> Panics
         | Returns (Some e) \<Rightarrow> Returns (Inl syntaxError)
         | Returns None \<Rightarrow> Returns (Inr nullChamber))
      else Returns (Inl syntaxError))"

definition validating :: collaborators where
  "validating =
     \<lparr>json_Unmarshal = decodeKnown,
      ReadInterfaceWith = (\<lambda>body.
        if body = [] then (0, Returns (Inl eofError)) else (length body, decodeKnown body)),
      EnsureTrailingSlash = ensureTrailingSlash\<rparr>"

definition getRequest :: "string \<Rightarrow> Request" where
  "getRequest url = \<lparr>Method = ''GET'', URLPath = url, Body = []\<rparr>"

definition postRequest :: "string \<Rightarrow> bytes \<Rightarrow> Request" where
  "postRequest url body = \<lparr>Method = ''POST'', URLPath = url, Body = body\<rparr>"

section \<open>Properties of the version comparison\<close>

text \<open>\<^verbatim>\<open>Compare\<close> gives \<open>-1\<close>, \<open>0\<close> or \<open>1\<close>, so "greater" is "equal to 1".\<close>

lemma compareInt_range: "compareInt x y \<in> {- 1, 0, 1}"
  by (simp add: compareInt_def)

lemma comparePrereleaseLoop_range: "comparePrereleaseLoop x y \<in> {- 1, 0, 1}"
proof (induction x y rule: comparePrereleaseLoop.induct)
  case (1 x y)
  show ?case
  proof (cases "x \<noteq> [] \<and> y \<noteq> []")
    case False
    then show ?thesis
      by (subst comparePrereleaseLoop.simps) auto
  next
    case True
    obtain dx x' where nx: "nextIdent (tl x) = (dx, x')" by (cases "nextIdent (tl x)")
    obtain dy y' where ny: "nextIdent (tl y) = (dy, y')" by (cases "nextIdent (tl y)")
    show ?thesis
    proof (cases "dx = dy")
      case False
      with True nx ny show ?thesis
        by (subst comparePrereleaseLoop.simps) (simp add: Let_def)
    next
      case same: True
      from "1.IH" [OF True nx [symmetric] refl ny [symmetric] refl] same
      have "comparePrereleaseLoop x' y' \<in> {- 1, 0, 1}" by simp
      with True nx ny same show ?thesis
        by (subst comparePrereleaseLoop.simps) (simp add: Let_def)
    qed
  qed
qed

lemma comparePrerelease_range: "comparePrerelease x y \<in> {- 1, 0, 1}"
  using comparePrereleaseLoop_range [of x y] by (simp add: comparePrerelease_def)

lemma Compare_range: "Compare v w \<in> {- 1, 0, 1}"
proof (cases "parse v")
  case None
  then show ?thesis by (cases "parse w") (simp_all add: Compare_def)
next
  case (Some pv)
  show ?thesis
  proof (cases "parse w")
    case None
    with Some show ?thesis by (simp add: Compare_def)
  next
    case (Some pw)
    with \<open>parse v = Some pv\<close> show ?thesis
      using compareInt_range [of "major pv" "major pw"]
        compareInt_range [of "minor pv" "minor pw"]
        compareInt_range [of "patch pv" "patch pw"]
        comparePrerelease_range [of "prerelease pv" "prerelease pw"]
      by (auto simp: Compare_def Let_def)
  qed
qed

lemma Compare_greater_iff: "Compare v w > 0 \<longleftrightarrow> Compare v w = 1"
  using Compare_range [of v w] by auto

lemma Compare_not_greater_iff: "Compare v w \<noteq> 1 \<longleftrightarrow> Compare v w \<le> 0"
  using Compare_range [of v w] by auto

text \<open>
  The empty string is not a version, and a string that is not a version compares below
  every version and equal to every other such string.
\<close>

lemma parse_Nil: "parse [] = None"
  by (simp add: parse_def)

lemma not_IsValid_Nil: "\<not> IsValid []"
  by (simp add: IsValid_def parse_Nil)

lemma Compare_invalid_left: "\<not> IsValid v \<Longrightarrow> Compare v w = (if IsValid w then - 1 else 0)"
  by (cases "parse w") (simp_all add: Compare_def IsValid_def)

lemma Compare_invalid_right: "\<not> IsValid w \<Longrightarrow> Compare v w = (if IsValid v then 1 else 0)"
  by (cases "parse v") (simp_all add: Compare_def IsValid_def)

text \<open>
  \<^verbatim>\<open>Compare\<close> is antisymmetric: exchanging the arguments negates the result. For two
  versions this rests on the order of strings being total and on the prerelease of a
  parsed version being empty or starting with a hyphen.
\<close>

lemma str_less_asym: "x \<noteq> y \<Longrightarrow> str_less x y \<longleftrightarrow> \<not> str_less y x"
proof (induction x y rule: str_less.induct)
  case (4 x xs y ys)
  show ?case
  proof (cases "x = y")
    case True
    with 4 show ?thesis by simp
  next
    case False
    have "(of_char x :: nat) < of_char y \<or> (of_char y :: nat) < of_char x"
      using False by (metis of_char_eq_iff linorder_neqE_nat)
    then show ?thesis using False by auto
  qed
qed simp_all

lemma compareInt_antisym: "compareInt x y = - compareInt y x"
  using str_less_asym [of x y] by (auto simp: compareInt_def)

lemma nextIdent_append: "nextIdent x = (dx, x') \<Longrightarrow> x = dx @ x'"
  by (auto simp: nextIdent_def Let_def)

lemma nextIdent_rest: "nextIdent x = (dx, x') \<Longrightarrow> x' \<noteq> [] \<Longrightarrow> hd x' = CHR ''.''"
proof -
  assume a: "nextIdent x = (dx, x')" and b: "x' \<noteq> []"
  have "x' = dropWhile (\<lambda>c. c \<noteq> CHR ''.'') x"
    using a by (auto simp: nextIdent_def Let_def dropWhile_eq_drop)
  with b show ?thesis
    using hd_dropWhile [of "\<lambda>c. c \<noteq> CHR ''.''" x] by auto
qed

lemma comparePrereleaseLoop_antisym:
  "x \<noteq> y \<Longrightarrow> (x \<noteq> [] \<Longrightarrow> y \<noteq> [] \<Longrightarrow> hd x = hd y) \<Longrightarrow>
   comparePrereleaseLoop x y = - comparePrereleaseLoop y x"
proof (induction x y rule: comparePrereleaseLoop.induct)
  case (1 x y)
  show ?case
  proof (cases "x \<noteq> [] \<and> y \<noteq> []")
    case False
    with "1.prems" show ?thesis
      by (subst comparePrereleaseLoop.simps, subst (2) comparePrereleaseLoop.simps) auto
  next
    case True
    obtain dx x' where nx: "nextIdent (tl x) = (dx, x')" by (cases "nextIdent (tl x)")
    obtain dy y' where ny: "nextIdent (tl y) = (dy, y')" by (cases "nextIdent (tl y)")
    show ?thesis
    proof (cases "dx = dy")
      case False
      with True nx ny str_less_asym [of dx dy] show ?thesis
        by (subst comparePrereleaseLoop.simps, subst (2) comparePrereleaseLoop.simps)
           (auto simp: Let_def)
    next
      case same: True
      have ne: "x' \<noteq> y'"
      proof
        assume "x' = y'"
        with same nextIdent_append [OF nx] nextIdent_append [OF ny] have "tl x = tl y" by simp
        moreover have "hd x = hd y" using True "1.prems"(2) by simp
        ultimately have "x = y" using True by (metis list.expand)
        with "1.prems"(1) show False by simp
      qed
      have hd': "x' \<noteq> [] \<Longrightarrow> y' \<noteq> [] \<Longrightarrow> hd x' = hd y'"
        using nextIdent_rest [OF nx] nextIdent_rest [OF ny] by simp
      have "comparePrereleaseLoop x' y' = - comparePrereleaseLoop y' x'"
        using "1.IH" [OF True nx [symmetric] refl ny [symmetric] refl _ ne hd'] same by simp
      with True nx ny same show ?thesis
        by (subst comparePrereleaseLoop.simps, subst (2) comparePrereleaseLoop.simps)
           (simp add: Let_def)
    qed
  qed
qed

lemma comparePrerelease_antisym:
  "(x = [] \<or> hd x = CHR ''-'') \<Longrightarrow> (y = [] \<or> hd y = CHR ''-'') \<Longrightarrow>
   comparePrerelease x y = - comparePrerelease y x"
  using comparePrereleaseLoop_antisym [of x y]
  by (auto simp: comparePrerelease_def)

lemma prereleaseLoop_index: "prereleaseLoop v i start = Some (j, s) \<Longrightarrow> i \<le> j"
proof (induction v i start rule: prereleaseLoop.induct)
  case (1 v i start)
  show ?case
  proof (cases "i < length v \<and> v ! i \<noteq> CHR ''+''")
    case False
    with "1.prems" show ?thesis
      by (subst (asm) prereleaseLoop.simps) auto
  next
    case True
    show ?thesis
    proof (cases "v ! i = CHR ''.''")
      case dot: True
      with True "1.prems" have ok: "\<not> (start = i \<or> isBadNum (take (i - start) (drop start v)))"
        and r: "prereleaseLoop v (Suc i) (Suc i) = Some (j, s)"
        by (subst (asm) prereleaseLoop.simps, simp split: if_splits)+
      have "\<not> (\<not> isIdentChar (v ! i) \<and> v ! i \<noteq> CHR ''.'')"
        using dot by simp
      from "1.IH"(1) [OF True this dot ok r] show ?thesis by simp
    next
      case nodot: False
      with True "1.prems" have id: "\<not> (\<not> isIdentChar (v ! i) \<and> v ! i \<noteq> CHR ''.'')"
        and r: "prereleaseLoop v (Suc i) start = Some (j, s)"
        by (subst (asm) prereleaseLoop.simps, simp split: if_splits)+
      from "1.IH"(2) [OF True id nodot r] show ?thesis by simp
    qed
  qed
qed

lemma parsePrerelease_hd:
  "parsePrerelease v = Some (p, r) \<Longrightarrow> p \<noteq> [] \<and> hd p = CHR ''-''"
proof -
  assume a: "parsePrerelease v = Some (p, r)"
  then have v: "v \<noteq> []" "hd v = CHR ''-''"
    by (auto simp: parsePrerelease_def split: if_splits)
  from a obtain i start where l: "prereleaseLoop v 1 1 = Some (i, start)" and p: "p = take i v"
    by (auto simp: parsePrerelease_def split: if_splits option.splits)
  from prereleaseLoop_index [OF l] have "1 \<le> i" .
  with v p show ?thesis by (cases v; cases i) auto
qed

lemma parse_prerelease_hd:
  "parse v = Some p \<Longrightarrow> prerelease p = [] \<or> hd (prerelease p) = CHR ''-''"
  by (auto simp: parse_def split: if_splits option.splits prod.splits
      dest: parsePrerelease_hd)

lemma Compare_antisym: "Compare v w = - Compare w v"
proof (cases "parse v")
  case None
  then show ?thesis by (cases "parse w") (simp_all add: Compare_def)
next
  case (Some pv)
  show ?thesis
  proof (cases "parse w")
    case None
    with Some show ?thesis by (simp add: Compare_def)
  next
    case (Some pw)
    with \<open>parse v = Some pv\<close> show ?thesis
      using compareInt_antisym [of "major pv" "major pw"]
        compareInt_antisym [of "minor pv" "minor pw"]
        compareInt_antisym [of "patch pv" "patch pw"]
        comparePrerelease_antisym [OF parse_prerelease_hd parse_prerelease_hd, of v pv w pw]
      by (simp add: Compare_def Let_def)
  qed
qed

section \<open>Properties of the validation loop\<close>

lemma successively_conv_nth:
  "successively P xs \<longleftrightarrow> (\<forall>i. Suc i < length xs \<longrightarrow> P (xs ! i) (xs ! Suc i))"
proof (induction P xs rule: successively.induct)
  case (3 P x y xs)
  show ?case
  proof
    assume a: "successively P (x # y # xs)"
    show "\<forall>i. Suc i < length (x # y # xs) \<longrightarrow> P ((x # y # xs) ! i) ((x # y # xs) ! Suc i)"
    proof (intro allI impI)
      fix i assume i: "Suc i < length (x # y # xs)"
      show "P ((x # y # xs) ! i) ((x # y # xs) ! Suc i)"
      proof (cases i)
        case 0
        with a show ?thesis by simp
      next
        case (Suc j)
        with a i 3 show ?thesis by simp
      qed
    qed
  next
    assume a: "\<forall>i. Suc i < length (x # y # xs) \<longrightarrow> P ((x # y # xs) ! i) ((x # y # xs) ! Suc i)"
    from a [rule_format, of 0] have "P x y" by simp
    moreover have "\<forall>i. Suc i < length (y # xs) \<longrightarrow> P ((y # xs) ! i) ((y # xs) ! Suc i)"
    proof (intro allI impI)
      fix i assume "Suc i < length (y # xs)"
      with a [rule_format, of "Suc i"] show "P ((y # xs) ! i) ((y # xs) ! Suc i)" by simp
    qed
    ultimately show "successively P (x # y # xs)" using 3 by simp
  qed
qed simp_all

text \<open>
  The loop returns a nil error exactly when every override value has the toggle's type
  and no override's maximum compares greater than the next override's minimum.
\<close>

lemma checkOverrides_nil_iff:
  "checkOverrides t previous ovs = Returns None \<longleftrightarrow>
     (\<forall>ov \<in> set ovs. IsValidValue t (Override.Value ov) = Returns True) \<and>
     successively (\<lambda>p n. Compare (MaximumVersion p) (MinimumVersion n) \<noteq> 1)
       ((case previous of None \<Rightarrow> [] | Some p \<Rightarrow> [p]) @ ovs)"
proof (induction ovs arbitrary: previous)
  case Nil
  show ?case by (cases previous) simp_all
next
  case (Cons ov ovs)
  show ?case
  proof (cases "IsValidValue t (Override.Value ov)")
    case Panics
    then show ?thesis by (cases previous) auto
  next
    case (Returns ok)
    then show ?thesis
      using Cons.IH [of "Some ov"] by (cases previous) (auto simp: successively_Cons)
  qed
qed

lemma checkOverrides_valid_values:
  "\<forall>ov \<in> set ovs. IsValidValue t (Override.Value ov) = Returns True \<Longrightarrow>
   checkOverrides t previous ovs = Returns None \<or>
   (\<exists>a b. checkOverrides t previous ovs = Returns (Some (MaximumGreaterThanNextMinimum a b)))"
proof (induction ovs arbitrary: previous)
  case Nil
  show ?case by simp
next
  case (Cons ov ovs)
  then show ?case
    using Cons.IH [of "Some ov"] by (cases previous) auto
qed

lemma checkOverrides_append:
  "checkOverrides t previous (pre @ rest) =
     (case checkOverrides t previous pre of
        Returns None \<Rightarrow> checkOverrides t (if pre = [] then previous else Some (last pre)) rest
      | r \<Rightarrow> r)"
proof (induction pre arbitrary: previous)
  case Nil
  show ?case by simp
next
  case (Cons ov pre)
  show ?case
    using Cons.IH [of "Some ov"]
    by (cases previous; cases "IsValidValue t (Override.Value ov)")
       (auto split: result.splits option.splits)
qed



lemma checkOverrides_reaches_nil:
  assumes "\<forall>x \<in> set pre. IsValidValue t (Override.Value x) = Returns True"
    and "\<forall>i. Suc i < length (pre @ [ov]) \<longrightarrow>
           Compare (MaximumVersion ((pre @ [ov]) ! i))
                   (MinimumVersion ((pre @ [ov]) ! Suc i)) \<le> 0"
    and "Override.Value ov = VNil"
  shows "checkOverrides t None (pre @ ov # post) = Panics"
proof -
  have s: "successively (\<lambda>p n. Compare (MaximumVersion p) (MinimumVersion n) \<noteq> 1) (pre @ [ov])"
    using assms(2) by (simp only: successively_conv_nth Compare_not_greater_iff)
  then have "successively (\<lambda>p n. Compare (MaximumVersion p) (MinimumVersion n) \<noteq> 1) pre"
    by (simp add: successively_append_iff)
  then have pre: "checkOverrides t None pre = Returns None"
    using assms(1) by (simp add: checkOverrides_nil_iff)
  have nil: "IsValidValue t (Override.Value ov) = Panics"
    using assms(3) by (simp add: IsValidValue_def)
  show ?thesis
  proof (cases "pre = []")
    case True
    then show ?thesis using nil by simp
  next
    case False
    then have "Compare (MaximumVersion (last pre)) (MinimumVersion ov) \<noteq> 1"
      using s by (simp add: successively_append_iff)
    then show ?thesis
      using False nil pre by (simp add: checkOverrides_append [of t None pre])
  qed
qed

lemma validate_nil_iff:
  "validate t = Returns None \<longleftrightarrow>
     IsValidValue t (Toggle.Value t) = Returns True \<and>
     (\<forall>ov \<in> set (Overrides t). IsValidValue t (Override.Value ov) = Returns True) \<and>
     (\<forall>i. Suc i < length (Overrides t) \<longrightarrow>
        Compare (MaximumVersion (Overrides t ! i)) (MinimumVersion (Overrides t ! Suc i)) \<le> 0)"
proof (cases "IsValidValue t (Toggle.Value t)")
  case Panics
  then show ?thesis by (simp add: validate_def)
next
  case (Returns ok)
  then show ?thesis
    using checkOverrides_nil_iff [of t None "Overrides t"]
    by (auto simp: validate_def successively_conv_nth Compare_not_greater_iff)
qed

lemma validate_valid_values:
  assumes "IsValidValue t (Toggle.Value t) = Returns True"
    and "\<forall>ov \<in> set (Overrides t). IsValidValue t (Override.Value ov) = Returns True"
  shows "validate t = Returns None \<or>
    (\<exists>a b. validate t = Returns (Some (MaximumGreaterThanNextMinimum a b)))"
  using assms checkOverrides_valid_values [of "Overrides t" t None]
  by (simp add: validate_def)





lemma GetOverrideIn_find: "GetOverrideIn ovs v = find (\<lambda>ov. rangeContains ov v) ovs"
  by (induction ovs) simp_all

text \<open>
  Unless the maximum is empty, the test of \<^verbatim>\<open>GetOverride\<close> is the specification's
  containment.
\<close>

lemma rangeContains_eq_spec_contains:
  "MaximumVersion ov \<noteq> [] \<Longrightarrow> rangeContains ov v \<longleftrightarrow> spec_contains ov v"
proof -
  assume m: "MaximumVersion ov \<noteq> []"
  have "Compare [] v \<le> 0"
    using Compare_invalid_left [OF not_IsValid_Nil, of v] by simp
  then have a: "MinimumVersion ov = [] \<or> Compare (MinimumVersion ov) v \<le> 0 \<longleftrightarrow>
      Compare (MinimumVersion ov) v \<le> 0"
    by auto
  have b: "Compare v (MaximumVersion ov) \<le> 0 \<longleftrightarrow> Compare (MaximumVersion ov) v \<ge> 0"
    using Compare_antisym [of v "MaximumVersion ov"] by simp
  show ?thesis
    using m a b by (simp add: rangeContains_def spec_contains_def)
qed

lemma IsValidValue_true_iff:
  "IsValidValue t v = Returns True \<longleftrightarrow>
     (reflect_TypeOf v = Some ''bool'' \<and> Type t = booleanType \<or>
      reflect_TypeOf v = Some ''string'' \<and> Type t = stringType \<or>
      reflect_TypeOf v = Some ''float64'' \<and> Type t = numberType)"
  by (cases "reflect_TypeOf v") (auto simp: IsValidValue_def)

lemma IsValidValue_custom:
  "Type t = customType \<Longrightarrow> v \<noteq> VNil \<Longrightarrow> IsValidValue t v = Returns False"
  by (cases v)
     (auto simp: IsValidValue_def customType_def booleanType_def stringType_def numberType_def)

section \<open>Resolution of a toggle's value\<close>

text \<open>
  Claim C1. For every toggle \<open>t\<close> and version string, \<^verbatim>\<open>GetValueAt\<close> returns the
  default value of \<open>t\<close> for the empty version; for a non-empty version it returns the
  value of the override \<^verbatim>\<open>GetOverride\<close> finds, and the default value when it finds none.
  A toggle without overrides resolves to its default value for every version, the empty
  one included.
\<close>

theorem GetValueAt_resolution:
  "GetValueAt t [] = Toggle.Value t \<and>
   (version \<noteq> [] \<longrightarrow>
      (case GetOverride t version of
         Some ov \<Rightarrow> GetValueAt t version = Override.Value ov
       | None \<Rightarrow> GetValueAt t version = Toggle.Value t)) \<and>
   (Overrides t = [] \<longrightarrow> GetValueAt t version = Toggle.Value t)"
  by (simp add: GetValueAt_def GetOverride_def split: option.splits)

text \<open>
  The scenario of the specification: the override for v1.0.0 to v1.5.0 answers v1.2.0,
  the default answers v2.0.0 and the empty version, and a toggle without overrides
  answers with its default.
\<close>

theorem GetValueAt_resolution_witness:
  "GetValueAt scenarioToggle [] = VBool True \<and>
   GetOverride scenarioToggle ''v1.2.0'' = Some (hd (Overrides scenarioToggle)) \<and>
   GetValueAt scenarioToggle ''v1.2.0'' = VBool False \<and>
   GetOverride scenarioToggle ''v2.0.0'' = None \<and>
   GetValueAt scenarioToggle ''v2.0.0'' = VBool True \<and>
   Overrides plainToggle = [] \<and>
   GetValueAt plainToggle ''v1.2.0'' = VBool True"
proof -
  have o1: "GetOverride scenarioToggle ''v1.2.0'' = Some (hd (Overrides scenarioToggle))"
    by code_simp
  have o2: "GetOverride scenarioToggle ''v2.0.0'' = None"
    by code_simp
  have v: "Toggle.Value scenarioToggle = VBool True" "Toggle.Value plainToggle = VBool True"
    "Override.Value (hd (Overrides scenarioToggle)) = VBool False"
    "Overrides plainToggle = []"
    by (simp_all add: scenarioToggle_def plainToggle_def)
  show ?thesis
    using GetValueAt_resolution [of scenarioToggle "''v1.2.0''"]
      GetValueAt_resolution [of scenarioToggle "''v2.0.0''"]
      GetValueAt_resolution [of plainToggle "''v1.2.0''"]
    by (simp add: o1 o2 v)
qed

section \<open>Validation of overrides during deserialisation\<close>

text \<open>
  Claim C2, as stated: for overrides \<open>A\<close> before \<open>B\<close> of a toggle, validation fails if and
  only if \<open>Compare A.max B.min > 0\<close>. It does not hold. A boolean toggle with a string
  value fails validation although its two overrides are apart; and a toggle passes
  validation although its first override's maximum v5.0.0 is greater than its third
  override's minimum v3.0.0, because the loop compares neighbours only.
\<close>

theorem UnmarshalJSON_fails_iff_counterexample:
  "snd (Toggle_UnmarshalJSON (\<lambda>b. Inr mistypedToggle) plainToggle []) =
     Returns (Some (ValueNotOfType (VString ''oops'') ''boolean'' ''feature'')) \<and>
   \<not> Compare (MaximumVersion (Overrides mistypedToggle ! 0))
              (MinimumVersion (Overrides mistypedToggle ! 1)) > 0 \<and>
   snd (Toggle_UnmarshalJSON (\<lambda>b. Inr crossedToggle) plainToggle []) = Returns None \<and>
   Compare (MaximumVersion (Overrides crossedToggle ! 0))
           (MinimumVersion (Overrides crossedToggle ! 2)) > 0"
  by code_simp

text \<open>
  Claim C2, amended. For a toggle whose value and override values all have the toggle's
  type, \<^verbatim>\<open>UnmarshalJSON\<close> returns an error if and only if some override is immediately
  followed by one whose minimum its maximum compares greater than, and returns nil if and
  only if every such comparison gives less or equal. For a toggle with exactly the two
  overrides \<open>A\<close>, \<open>B\<close> it fails if and only if \<open>Compare A.max B.min > 0\<close>.
\<close>

theorem UnmarshalJSON_fails_iff_consecutive_greater:
  assumes "dec b = Inr t"
    and "IsValidValue t (Toggle.Value t) = Returns True"
    and "\<forall>ov \<in> set (Overrides t). IsValidValue t (Override.Value ov) = Returns True"
  shows "((\<exists>e. snd (Toggle_UnmarshalJSON dec old b) = Returns (Some e)) \<longleftrightarrow>
            (\<exists>i. Suc i < length (Overrides t) \<and>
               Compare (MaximumVersion (Overrides t ! i))
                       (MinimumVersion (Overrides t ! Suc i)) > 0)) \<and>
         (snd (Toggle_UnmarshalJSON dec old b) = Returns None \<longleftrightarrow>
            (\<forall>i. Suc i < length (Overrides t) \<longrightarrow>
               Compare (MaximumVersion (Overrides t ! i))
                       (MinimumVersion (Overrides t ! Suc i)) \<le> 0)) \<and>
         (Overrides t = [A, B] \<longrightarrow>
            ((\<exists>e. snd (Toggle_UnmarshalJSON dec old b) = Returns (Some e)) \<longleftrightarrow>
               Compare (MaximumVersion A) (MinimumVersion B) > 0))"
proof -
  have r: "snd (Toggle_UnmarshalJSON dec old b) = validate t"
    using assms(1) by (simp add: Toggle_UnmarshalJSON_def)
  have ok: "validate t = Returns None \<longleftrightarrow>
      (\<forall>i. Suc i < length (Overrides t) \<longrightarrow>
         Compare (MaximumVersion (Overrides t ! i))
                 (MinimumVersion (Overrides t ! Suc i)) \<le> 0)"
    using assms(2,3) by (simp add: validate_nil_iff)
  have alt: "validate t = Returns None \<or> (\<exists>e. validate t = Returns (Some e))"
    using validate_valid_values [OF assms(2,3)] by blast
  have fails: "(\<exists>e. validate t = Returns (Some e)) \<longleftrightarrow> validate t \<noteq> Returns None"
    using alt by auto
  have first: "(\<exists>e. validate t = Returns (Some e)) \<longleftrightarrow>
      (\<exists>i. Suc i < length (Overrides t) \<and>
         Compare (MaximumVersion (Overrides t ! i))
                 (MinimumVersion (Overrides t ! Suc i)) > 0)"
    unfolding fails ok by (simp add: not_le)
  have two: "Overrides t = [A, B] \<longrightarrow>
      ((\<exists>e. validate t = Returns (Some e)) \<longleftrightarrow>
         Compare (MaximumVersion A) (MinimumVersion B) > 0)"
  proof
    assume ab: "Overrides t = [A, B]"
    have "(\<exists>i. Suc i < length [A, B] \<and>
         Compare (MaximumVersion ([A, B] ! i)) (MinimumVersion ([A, B] ! Suc i)) > 0)
       \<longleftrightarrow> Compare (MaximumVersion A) (MinimumVersion B) > 0"
      by auto
    with first ab show "(\<exists>e. validate t = Returns (Some e)) \<longleftrightarrow>
         Compare (MaximumVersion A) (MinimumVersion B) > 0"
      by simp
  qed
  from first ok two show ?thesis unfolding r by blast
qed

text \<open>
  Overrides v1.0.0 to v3.0.0 and v2.0.0 to v4.0.0 fail validation; overrides that share
  the endpoint v2.0.0 pass it.
\<close>

theorem UnmarshalJSON_fails_iff_consecutive_greater_witness:
  "IsValidValue overlappingToggle (Toggle.Value overlappingToggle) = Returns True \<and>
   list_all (\<lambda>ov. IsValidValue overlappingToggle (Override.Value ov) = Returns True)
     (Overrides overlappingToggle) \<and>
   Compare ''v3.0.0'' ''v2.0.0'' > 0 \<and>
   (\<exists>e. snd (Toggle_UnmarshalJSON (\<lambda>b. Inr overlappingToggle) plainToggle []) =
      Returns (Some e)) \<and>
   Compare ''v2.0.0'' ''v2.0.0'' \<le> 0 \<and>
   snd (Toggle_UnmarshalJSON (\<lambda>b. Inr touchingToggle) plainToggle []) = Returns None"
proof -
  let ?A = "\<lparr>MinimumVersion = ''v1.0.0'', MaximumVersion = ''v3.0.0'',
          Override.Value = VBool False\<rparr>"
  let ?B = "\<lparr>MinimumVersion = ''v2.0.0'', MaximumVersion = ''v4.0.0'',
          Override.Value = VBool True\<rparr>"
  have h1: "IsValidValue overlappingToggle (Toggle.Value overlappingToggle) = Returns True"
    by code_simp
  have h2l: "list_all (\<lambda>ov. IsValidValue overlappingToggle (Override.Value ov) = Returns True)
     (Overrides overlappingToggle)"
    by code_simp
  then have h2: "\<forall>ov \<in> set (Overrides overlappingToggle).
      IsValidValue overlappingToggle (Override.Value ov) = Returns True"
    by (simp add: list_all_iff)
  have ab: "Overrides overlappingToggle = [?A, ?B]"
    by (simp add: overlappingToggle_def)
  have c: "Compare ''v3.0.0'' ''v2.0.0'' > 0"
    by code_simp
  have k1: "IsValidValue touchingToggle (Toggle.Value touchingToggle) = Returns True"
    by code_simp
  have "list_all (\<lambda>ov. IsValidValue touchingToggle (Override.Value ov) = Returns True)
     (Overrides touchingToggle)"
    by code_simp
  then have k2: "\<forall>ov \<in> set (Overrides touchingToggle).
      IsValidValue touchingToggle (Override.Value ov) = Returns True"
    by (simp add: list_all_iff)
  have c0: "Compare ''v2.0.0'' ''v2.0.0'' \<le> 0"
    by code_simp
  have len: "length (Overrides touchingToggle) = 2"
    "MaximumVersion (Overrides touchingToggle ! 0) = ''v2.0.0''"
    "MinimumVersion (Overrides touchingToggle ! 1) = ''v2.0.0''"
    by (simp_all add: touchingToggle_def)
  have all: "\<forall>i. Suc i < length (Overrides touchingToggle) \<longrightarrow>
      Compare (MaximumVersion (Overrides touchingToggle ! i))
              (MinimumVersion (Overrides touchingToggle ! Suc i)) \<le> 0"
  proof (intro allI impI)
    fix i assume "Suc i < length (Overrides touchingToggle)"
    then have "i = 0" using len(1) by simp
    then show "Compare (MaximumVersion (Overrides touchingToggle ! i))
              (MinimumVersion (Overrides touchingToggle ! Suc i)) \<le> 0"
      using c0 len by simp
  qed
  have fails: "\<exists>e. snd (Toggle_UnmarshalJSON (\<lambda>b. Inr overlappingToggle) plainToggle []) =
      Returns (Some e)"
    using UnmarshalJSON_fails_iff_consecutive_greater
      [where dec = "\<lambda>b. Inr overlappingToggle" and b = "[]" and t = overlappingToggle
         and A = ?A and B = ?B and old = plainToggle, OF refl h1 h2]
      ab c by simp
  have passes: "snd (Toggle_UnmarshalJSON (\<lambda>b. Inr touchingToggle) plainToggle []) = Returns None"
    using UnmarshalJSON_fails_iff_consecutive_greater
      [where dec = "\<lambda>b. Inr touchingToggle" and b = "[]" and t = touchingToggle
         and old = plainToggle, OF refl k1 k2]
      all by blast
  from h1 h2l c fails c0 passes show ?thesis by blast
qed

text \<open>
  Claim C4: every toggle that passes validation has \<open>prev.max < next.min\<close> for
  consecutive overrides, so the stored ranges do not overlap. The code accepts
  \<open>prev.max = next.min\<close>: the toggle with overrides v1.0.0 to v2.0.0 and v2.0.0 to v3.0.0
  passes validation, the comparison of the first maximum with the second minimum gives
  \<open>0\<close>, and the version v2.0.0 lies in both ranges as \<^verbatim>\<open>GetOverride\<close> tests them.
\<close>

theorem touching_overrides_pass_validation:
  "snd (Toggle_UnmarshalJSON (\<lambda>b. Inr touchingToggle) plainToggle []) = Returns None \<and>
   Compare (MaximumVersion (Overrides touchingToggle ! 0))
           (MinimumVersion (Overrides touchingToggle ! 1)) = 0 \<and>
   rangeContains (Overrides touchingToggle ! 0) ''v2.0.0'' \<and>
   rangeContains (Overrides touchingToggle ! 1) ''v2.0.0''"
  by code_simp

section \<open>Containment and the first matching override\<close>

text \<open>
  Claim C3: containment holds if and only if \<open>minVersion \<le> v \<le> maxVersion\<close>, an empty
  endpoint being unbounded in its direction, and \<^verbatim>\<open>GetOverride\<close> returns the first
  override whose range contains the version. The code does this for an empty minimum
  but not for an empty maximum. The override from v1.0.0 with no maximum contains
  v2.0.0 in the specification's reading; the test of \<^verbatim>\<open>GetOverride\<close> rejects it,
  \<^verbatim>\<open>GetOverride\<close> finds nothing and the toggle resolves to its default. The override up
  to v1.5.0 with no minimum contains v0.1.0 and is found.
\<close>

theorem GetOverride_empty_maximum:
  "spec_contains openEnded ''v2.0.0'' \<and>
   \<not> rangeContains openEnded ''v2.0.0'' \<and>
   GetOverride (plainToggle\<lparr>Overrides := [openEnded]\<rparr>) ''v2.0.0'' = None \<and>
   GetValueAt (plainToggle\<lparr>Overrides := [openEnded]\<rparr>) ''v2.0.0'' = VBool True \<and>
   rangeContains openStart ''v0.1.0'' \<and>
   GetOverride (plainToggle\<lparr>Overrides := [openStart]\<rparr>) ''v0.1.0'' = Some openStart"
  by code_simp

text \<open>
  What the code does for every override and version. The range of an override contains
  \<open>v\<close> if and only if \<open>Compare minVersion v \<le> 0\<close> and \<open>Compare maxVersion v \<ge> 0\<close>. An
  empty minimum is unbounded below. Whenever the maximum is not empty, containment is
  the specification's. With an empty maximum the range contains no valid version.
  \<^verbatim>\<open>GetOverride\<close> returns the first override in stored order whose range contains
  \<open>v\<close>, and none exactly when no range contains it.
\<close>

lemma rangeContains_and_GetOverride:
  "(rangeContains ov v \<longleftrightarrow>
      Compare (MinimumVersion ov) v \<le> 0 \<and> Compare (MaximumVersion ov) v \<ge> 0) \<and>
   (MinimumVersion ov = [] \<longrightarrow>
      (rangeContains ov v \<longleftrightarrow> Compare (MaximumVersion ov) v \<ge> 0)) \<and>
   (MaximumVersion ov \<noteq> [] \<longrightarrow> (rangeContains ov v \<longleftrightarrow> spec_contains ov v)) \<and>
   (MaximumVersion ov = [] \<longrightarrow>
      (rangeContains ov v \<longleftrightarrow> \<not> IsValid v \<and> \<not> IsValid (MinimumVersion ov))) \<and>
   (GetOverride t v = None \<longleftrightarrow> (\<forall>x \<in> set (Overrides t). \<not> rangeContains x v)) \<and>
   (GetOverride t v = Some ov \<longleftrightarrow>
      (\<exists>i < length (Overrides t). Overrides t ! i = ov \<and> rangeContains ov v \<and>
         (\<forall>j < i. \<not> rangeContains (Overrides t ! j) v)))"
proof -
  have a: "rangeContains ov v \<longleftrightarrow>
      Compare (MinimumVersion ov) v \<le> 0 \<and> Compare (MaximumVersion ov) v \<ge> 0"
    by (simp add: rangeContains_def)
  have b: "MinimumVersion ov = [] \<longrightarrow>
      (rangeContains ov v \<longleftrightarrow> Compare (MaximumVersion ov) v \<ge> 0)"
    using Compare_invalid_left [OF not_IsValid_Nil, of v]
    by (simp add: rangeContains_def)
  have c: "MaximumVersion ov = [] \<longrightarrow>
      (rangeContains ov v \<longleftrightarrow> \<not> IsValid v \<and> \<not> IsValid (MinimumVersion ov))"
  proof
    assume e: "MaximumVersion ov = []"
    show "rangeContains ov v \<longleftrightarrow> \<not> IsValid v \<and> \<not> IsValid (MinimumVersion ov)"
    proof (cases "IsValid v")
      case True
      then show ?thesis
        using Compare_invalid_left [OF not_IsValid_Nil, of v] e
        by (simp add: rangeContains_def)
    next
      case False
      then show ?thesis
        using Compare_invalid_left [OF not_IsValid_Nil, of v] e
          Compare_invalid_right [OF False, of "MinimumVersion ov"]
        by (simp add: rangeContains_def)
    qed
  qed
  have d: "GetOverride t v = None \<longleftrightarrow> (\<forall>x \<in> set (Overrides t). \<not> rangeContains x v)"
    by (auto simp: GetOverride_def GetOverrideIn_find find_None_iff)
  have e: "GetOverride t v = Some ov \<longleftrightarrow>
      (\<exists>i < length (Overrides t). Overrides t ! i = ov \<and> rangeContains ov v \<and>
         (\<forall>j < i. \<not> rangeContains (Overrides t ! j) v))"
    unfolding GetOverride_def GetOverrideIn_find find_Some_iff by auto
  have f: "MaximumVersion ov \<noteq> [] \<longrightarrow> (rangeContains ov v \<longleftrightarrow> spec_contains ov v)"
    using rangeContains_eq_spec_contains [of ov v] by blast
  from a b f c d e show ?thesis by blast
qed

text \<open>
  An override with no minimum contains v0.1.0; one with no maximum does not contain
  v2.0.0; of two overrides that contain v3.5.0 the first is returned; no override
  contains v7.0.0.
\<close>

lemma rangeContains_and_GetOverride_examples:
  "MaximumVersion openStart \<noteq> [] \<and> spec_contains openStart ''v0.1.0'' \<and>
   MinimumVersion openStart = [] \<and> rangeContains openStart ''v0.1.0'' \<and>
   Compare (MaximumVersion openStart) ''v0.1.0'' \<ge> 0 \<and>
   MaximumVersion openEnded = [] \<and> IsValid ''v2.0.0'' \<and>
   \<not> rangeContains openEnded ''v2.0.0'' \<and>
   GetOverride crossedToggle ''v3.5.0'' = Some (Overrides crossedToggle ! 0) \<and>
   rangeContains (Overrides crossedToggle ! 2) ''v3.5.0'' \<and>
   GetOverride crossedToggle ''v7.0.0'' = None"
proof -
  have m: "MinimumVersion openStart = []" "MaximumVersion openEnded = []"
    by (simp_all add: openStart_def openEnded_def)
  have c: "Compare (MaximumVersion openStart) ''v0.1.0'' \<ge> 0"
    by code_simp
  have v: "IsValid ''v2.0.0''"
    by code_simp
  have mx: "MaximumVersion openStart \<noteq> []"
    by (simp add: openStart_def)
  have sp: "spec_contains openStart ''v0.1.0''"
    by code_simp
  have r1: "rangeContains openStart ''v0.1.0''"
    using rangeContains_and_GetOverride [of openStart "''v0.1.0''"] mx sp by blast
  have r2: "\<not> rangeContains openEnded ''v2.0.0''"
    using rangeContains_and_GetOverride [of openEnded "''v2.0.0''"] m v by blast
  have l: "(0::nat) < length (Overrides crossedToggle)"
    by (simp add: crossedToggle_def)
  have r0: "rangeContains (Overrides crossedToggle ! 0) ''v3.5.0''"
    by code_simp
  have r3: "rangeContains (Overrides crossedToggle ! 2) ''v3.5.0''"
    by code_simp
  have "\<exists>i < length (Overrides crossedToggle).
      Overrides crossedToggle ! i = Overrides crossedToggle ! 0 \<and>
      rangeContains (Overrides crossedToggle ! 0) ''v3.5.0'' \<and>
      (\<forall>j < i. \<not> rangeContains (Overrides crossedToggle ! j) ''v3.5.0'')"
    using l r0 by (intro exI [of _ 0]) simp
  then have g1: "GetOverride crossedToggle ''v3.5.0'' = Some (Overrides crossedToggle ! 0)"
    using rangeContains_and_GetOverride
      [of "Overrides crossedToggle ! 0" "''v3.5.0''" crossedToggle] by blast
  have "list_all (\<lambda>x. \<not> rangeContains x ''v7.0.0'') (Overrides crossedToggle)"
    by code_simp
  then have "\<forall>x \<in> set (Overrides crossedToggle). \<not> rangeContains x ''v7.0.0''"
    by (simp add: list_all_iff)
  then have g2: "GetOverride crossedToggle ''v7.0.0'' = None"
    using rangeContains_and_GetOverride [of _ "''v7.0.0''" crossedToggle] by blast
  from mx sp m c v r1 r2 g1 r3 g2 show ?thesis by blast
qed

section \<open>The type check of values\<close>

text \<open>
  Claim C5: \<^verbatim>\<open>IsValidValue\<close> returns true if and only if the dynamic type of the value
  matches the toggle's type, and returns false for every value when the toggle's type is
  custom. For the nil value the code does not return: with a toggle of type custom,
  \<^verbatim>\<open>reflect.TypeOf(nil).String()\<close> panics. (For every other value the claim holds, see
  \<open>IsValidValue_true_iff\<close> and \<open>IsValidValue_custom\<close>.)
\<close>

theorem IsValidValue_custom_nil_panics:
  "IsValidValue customNullToggle VNil = Panics"
  by code_simp




section \<open>The handler's answers to GET and POST\<close>

lemma handleResponse_eq:
  "handleResponse code data msg =
     \<lparr>ContentType = ''application/json'', StatusCode = code,
      Envelope = \<lparr>Data = data, OperationResponse.Error = msg\<rparr>\<rparr>"
  by (cases data) (simp_all add: handleResponse_def)

text \<open>
  What the handler does with a \<^verbatim>\<open>GET\<close> request, with \<open>path\<close> the URL path without the
  prefix \<^verbatim>\<open>/v1\<close>. If the path is \<^verbatim>\<open>/\<close> it answers 404 and makes no call to the storage,
  whatever the storage and its state; if \<^verbatim>\<open>Get\<close> fails with a not-found error it answers
  404 with the message "Not Found"; if \<^verbatim>\<open>Get\<close> fails with another error it answers 404
  with that error's message; if decoding the stored bytes returns an error it answers
  500 with the message "Internal Server Error"; if decoding returns a chamber it answers
  200 with the chamber as data; and if decoding panics it writes no response.
\<close>

lemma handle_GET:
  assumes "Method r = ''GET''" and "path = TrimPrefix (URLPath r) ''/v1''"
  shows
    "(path = ''/'' \<longrightarrow>
        response (handle env strg r s) =
          Some \<lparr>ContentType = ''application/json'', StatusCode = 404,
                Envelope = \<lparr>Data = None, OperationResponse.Error = pathCannotBe ''/''\<rparr>\<rparr> \<and>
        calls (handle env strg r s) = [] \<and>
        backend (handle env strg r s) = s) \<and>
     (path \<noteq> ''/'' \<and> Get strg path s = (Inl err, s') \<and> AsNotFoundError err \<longrightarrow>
        response (handle env strg r s) =
          Some \<lparr>ContentType = ''application/json'', StatusCode = 404,
                Envelope = \<lparr>Data = None, OperationResponse.Error = ''Not Found''\<rparr>\<rparr>) \<and>
     (path \<noteq> ''/'' \<and> Get strg path s = (Inl err, s') \<and> \<not> AsNotFoundError err \<longrightarrow>
        response (handle env strg r s) =
          Some \<lparr>ContentType = ''application/json'', StatusCode = 404,
                Envelope = \<lparr>Data = None, OperationResponse.Error = go_error.Error err\<rparr>\<rparr>) \<and>
     (path \<noteq> ''/'' \<and> Get strg path s = (Inr entry, s') \<and>
      json_Unmarshal env (StorageEntry.Value entry) = Returns (Inl err) \<longrightarrow>
        response (handle env strg r s) =
          Some \<lparr>ContentType = ''application/json'', StatusCode = 500,
                Envelope = \<lparr>Data = None,
                            OperationResponse.Error = ''Internal Server Error''\<rparr>\<rparr>) \<and>
     (path \<noteq> ''/'' \<and> Get strg path s = (Inr entry, s') \<and>
      json_Unmarshal env (StorageEntry.Value entry) = Returns (Inr c) \<longrightarrow>
        response (handle env strg r s) =
          Some \<lparr>ContentType = ''application/json'', StatusCode = 200,
                Envelope = \<lparr>Data = Some (ChamberData c), OperationResponse.Error = []\<rparr>\<rparr>) \<and>
     (path \<noteq> ''/'' \<and> Get strg path s = (Inr entry, s') \<and>
      json_Unmarshal env (StorageEntry.Value entry) = Panics \<longrightarrow>
        response (handle env strg r s) = None)"
proof -
  have root: "path = ''/'' \<longrightarrow>
        response (handle env strg r s) =
          Some \<lparr>ContentType = ''application/json'', StatusCode = 404,
                Envelope = \<lparr>Data = None, OperationResponse.Error = pathCannotBe ''/''\<rparr>\<rparr> \<and>
        calls (handle env strg r s) = [] \<and>
        backend (handle env strg r s) = s"
    using assms by (simp add: handle_def Let_def handleResponse_eq StatusNotFound_def)
  have nf: "path \<noteq> ''/'' \<and> Get strg path s = (Inl err, s') \<and> AsNotFoundError err \<longrightarrow>
        response (handle env strg r s) =
          Some \<lparr>ContentType = ''application/json'', StatusCode = 404,
                Envelope = \<lparr>Data = None, OperationResponse.Error = ''Not Found''\<rparr>\<rparr>"
    using assms
    by (simp add: handle_def Let_def handleResponse_eq StatusNotFound_def StatusText_def)
  have other: "path \<noteq> ''/'' \<and> Get strg path s = (Inl err, s') \<and> \<not> AsNotFoundError err \<longrightarrow>
        response (handle env strg r s) =
          Some \<lparr>ContentType = ''application/json'', StatusCode = 404,
                Envelope = \<lparr>Data = None, OperationResponse.Error = go_error.Error err\<rparr>\<rparr>"
    using assms
    by (simp add: handle_def Let_def handleResponse_eq StatusNotFound_def)
  have bad: "path \<noteq> ''/'' \<and> Get strg path s = (Inr entry, s') \<and>
      json_Unmarshal env (StorageEntry.Value entry) = Returns (Inl err) \<longrightarrow>
        response (handle env strg r s) =
          Some \<lparr>ContentType = ''application/json'', StatusCode = 500,
                Envelope = \<lparr>Data = None,
                            OperationResponse.Error = ''Internal Server Error''\<rparr>\<rparr>"
    using assms
    by (simp add: handle_def Let_def handleResponse_eq StatusInternalServerError_def
        StatusText_def)
  have ok: "path \<noteq> ''/'' \<and> Get strg path s = (Inr entry, s') \<and>
      json_Unmarshal env (StorageEntry.Value entry) = Returns (Inr c) \<longrightarrow>
        response (handle env strg r s) =
          Some \<lparr>ContentType = ''application/json'', StatusCode = 200,
                Envelope = \<lparr>Data = Some (ChamberData c), OperationResponse.Error = []\<rparr>\<rparr>"
    using assms
    by (simp add: handle_def Let_def handleResponse_eq StatusOK_def)
  have panic: "path \<noteq> ''/'' \<and> Get strg path s = (Inr entry, s') \<and>
      json_Unmarshal env (StorageEntry.Value entry) = Panics \<longrightarrow>
        response (handle env strg r s) = None"
    using assms by (simp add: handle_def Let_def)
  from root nf other bad ok panic show ?thesis by blast
qed

lemma handle_GET_examples:
  "response (handle wholeBody memoryStorage (getRequest ''/v1/'')
      [(''/acme/billing'', billingBytes)]) =
     Some \<lparr>ContentType = ''application/json'', StatusCode = 404,
           Envelope = \<lparr>Data = None, OperationResponse.Error = pathCannotBe ''/''\<rparr>\<rparr> \<and>
   calls (handle wholeBody memoryStorage (getRequest ''/v1/'')
      [(''/acme/billing'', billingBytes)]) = [] \<and>
   response (handle wholeBody memoryStorage (getRequest ''/v1/acme/billing'') []) =
     Some \<lparr>ContentType = ''application/json'', StatusCode = 404,
           Envelope = \<lparr>Data = None, OperationResponse.Error = ''Not Found''\<rparr>\<rparr> \<and>
   response (handle wholeBody brokenStorage (getRequest ''/v1/acme/billing'') []) =
     Some \<lparr>ContentType = ''application/json'', StatusCode = 404,
           Envelope = \<lparr>Data = None, OperationResponse.Error = ''disk failure''\<rparr>\<rparr> \<and>
   response (handle wholeBody memoryStorage (getRequest ''/v1/acme/billing'')
      [(''/acme/billing'', [0x7B])]) =
     Some \<lparr>ContentType = ''application/json'', StatusCode = 500,
           Envelope = \<lparr>Data = None, OperationResponse.Error = ''Internal Server Error''\<rparr>\<rparr> \<and>
   response (handle wholeBody memoryStorage (getRequest ''/v1/acme/billing'')
      [(''/acme/billing'', billingBytes)]) =
     Some \<lparr>ContentType = ''application/json'', StatusCode = 200,
           Envelope = \<lparr>Data = Some (ChamberData billingChamber),
                       OperationResponse.Error = []\<rparr>\<rparr>"
proof -
  have m: "Method (getRequest u) = ''GET''" for u
    by (simp add: getRequest_def)
  have p0: "''/'' = TrimPrefix (URLPath (getRequest ''/v1/'')) ''/v1''"
    by (simp add: getRequest_def TrimPrefix_def HasPrefix_def)
  have p1: "''/acme/billing'' = TrimPrefix (URLPath (getRequest ''/v1/acme/billing'')) ''/v1''"
    by (simp add: getRequest_def TrimPrefix_def HasPrefix_def)
  have ne: "''/acme/billing'' \<noteq> ''/''"
    by simp
  have g1: "Get memoryStorage ''/acme/billing'' [] = (Inl notFoundError, [])"
    by (simp add: memoryStorage_def)
  have g2: "Get brokenStorage ''/acme/billing'' [] = (Inl diskError, [])"
    by (simp add: brokenStorage_def)
  have g3: "Get memoryStorage ''/acme/billing'' [(''/acme/billing'', [0x7B])] =
      (Inr \<lparr>Key = ''/acme/billing'', StorageEntry.Value = [0x7B]\<rparr>,
       [(''/acme/billing'', [0x7B])])"
    by (simp add: memoryStorage_def)
  have g4: "Get memoryStorage ''/acme/billing'' [(''/acme/billing'', billingBytes)] =
      (Inr \<lparr>Key = ''/acme/billing'', StorageEntry.Value = billingBytes\<rparr>,
       [(''/acme/billing'', billingBytes)])"
    by (simp add: memoryStorage_def)
  have e1: "AsNotFoundError notFoundError" "\<not> AsNotFoundError diskError"
    "go_error.Error diskError = ''disk failure''"
    by (simp_all add: notFoundError_def diskError_def)
  have len: "length billingBytes = 31"
    by (simp add: billingBytes_def billingDocument_def quoted_def)
  have "length [0x7B :: 8 word] \<noteq> length billingBytes"
    using len by simp
  then have "[0x7B] \<noteq> billingBytes"
    by (metis (no_types))
  then have u1: "json_Unmarshal wholeBody [0x7B] = Returns (Inl syntaxError)"
    by (simp add: wholeBody_def)
  have u2: "json_Unmarshal wholeBody billingBytes = Returns (Inr billingChamber)"
    by (simp add: wholeBody_def)
  note t0 = handle_GET [OF m [of "''/v1/''"] p0,
      of wholeBody memoryStorage "[(''/acme/billing'', billingBytes)]"]
  note t1 = handle_GET [OF m [of "''/v1/acme/billing''"] p1,
      where env = wholeBody and strg = memoryStorage and s = "[]"
        and err = notFoundError and s' = "[]"]
  note t2 = handle_GET [OF m [of "''/v1/acme/billing''"] p1,
      where env = wholeBody and strg = brokenStorage and s = "[]"
        and err = diskError and s' = "[]"]
  note t3 = handle_GET [OF m [of "''/v1/acme/billing''"] p1,
      where env = wholeBody and strg = memoryStorage and s = "[(''/acme/billing'', [0x7B])]"
        and entry = "\<lparr>Key = ''/acme/billing'', StorageEntry.Value = [0x7B]\<rparr>"
        and err = syntaxError and s' = "[(''/acme/billing'', [0x7B])]"]
  note t4 = handle_GET [OF m [of "''/v1/acme/billing''"] p1,
      where env = wholeBody and strg = memoryStorage
        and s = "[(''/acme/billing'', billingBytes)]"
        and entry = "\<lparr>Key = ''/acme/billing'', StorageEntry.Value = billingBytes\<rparr>"
        and c = billingChamber and s' = "[(''/acme/billing'', billingBytes)]"]
  from t0 t1 t2 t3 t4 ne g1 g2 g3 g4 e1 u1 u2 show ?thesis
    by simp
qed

text \<open>
  The document with a null toggle value makes the validation of \<^verbatim>\<open>Toggle.UnmarshalJSON\<close>
  panic, and with it the decoding of the chamber.
\<close>

lemma nullDocument_panics:
  "snd (Toggle_UnmarshalJSON (\<lambda>x. Inr nullValueToggle) plainToggle b) = Panics"
  by (simp add: Toggle_UnmarshalJSON_def validate_def IsValidValue_def nullValueToggle_def)

lemma decodeKnown_nullDocument: "decodeKnown nullDocumentBytes = Panics"
proof -
  have "length nullDocumentBytes = 89"
    by (simp add: nullDocumentBytes_def nullDocument_def quoted_def)
  moreover have "length billingBytes = 31"
    by (simp add: billingBytes_def billingDocument_def quoted_def)
  ultimately have "nullDocumentBytes \<noteq> billingBytes"
    by auto
  then show ?thesis
    by (simp add: decodeKnown_def nullDocument_panics)
qed

text \<open>
  Claim C6: for every \<^verbatim>\<open>GET\<close> request the handler answers 404, 500 when the stored bytes
  fail to deserialise, and 200 otherwise. On stored bytes that hold a toggle with a null
  value the handler gives none of these answers: decoding runs the validation of
  \<^verbatim>\<open>Toggle.UnmarshalJSON\<close>, which panics in \<^verbatim>\<open>IsValidValue\<close>, and the handler is
  unwound after its call to the storage, before it writes a response.
\<close>

theorem handle_GET_null_toggle_panics:
  "Get memoryStorage ''/acme/billing'' [(''/acme/billing'', nullDocumentBytes)] =
     (Inr \<lparr>Key = ''/acme/billing'', StorageEntry.Value = nullDocumentBytes\<rparr>,
      [(''/acme/billing'', nullDocumentBytes)]) \<and>
   snd (Toggle_UnmarshalJSON (\<lambda>x. Inr nullValueToggle) plainToggle nullDocumentBytes) = Panics \<and>
   json_Unmarshal validating nullDocumentBytes = Panics \<and>
   response (handle validating memoryStorage (getRequest ''/v1/acme/billing'')
     [(''/acme/billing'', nullDocumentBytes)]) = None \<and>
   calls (handle validating memoryStorage (getRequest ''/v1/acme/billing'')
     [(''/acme/billing'', nullDocumentBytes)]) = [GetCall ''/acme/billing'']"
proof -
  have g: "Get memoryStorage ''/acme/billing'' [(''/acme/billing'', nullDocumentBytes)] =
     (Inr \<lparr>Key = ''/acme/billing'', StorageEntry.Value = nullDocumentBytes\<rparr>,
      [(''/acme/billing'', nullDocumentBytes)])"
    by (simp add: memoryStorage_def)
  have u: "json_Unmarshal validating nullDocumentBytes = Panics"
    by (simp add: validating_def decodeKnown_nullDocument)
  have p: "TrimPrefix (URLPath (getRequest ''/v1/acme/billing'')) ''/v1'' = ''/acme/billing''"
    by (simp add: getRequest_def TrimPrefix_def HasPrefix_def)
  have m: "Method (getRequest ''/v1/acme/billing'') = ''GET''"
    by (simp add: getRequest_def)
  have r: "response (handle validating memoryStorage (getRequest ''/v1/acme/billing'')
     [(''/acme/billing'', nullDocumentBytes)]) = None"
    using g u p m by (simp add: handle_def Let_def)
  have c: "calls (handle validating memoryStorage (getRequest ''/v1/acme/billing'')
     [(''/acme/billing'', nullDocumentBytes)]) = [GetCall ''/acme/billing'']"
    using g u p m by (simp add: handle_def Let_def)
  from g nullDocument_panics u r c show ?thesis by blast
qed

text \<open>
  What the handler does with a \<^verbatim>\<open>POST\<close> request. If decoding the body returns an error it
  answers 400, with the message "Request body must not be empty" when the decoder
  reports the end of input (which is how the handler recognises an empty body) and
  "Bad Request" otherwise, and it makes no call to the storage. If decoding returns a
  chamber it makes one call, \<^verbatim>\<open>Put\<close> of the entry whose key is
  \<^verbatim>\<open>EnsureTrailingSlash(path)\<close> followed by the chamber's name and whose value is the
  bytes read through the tee; it answers 500 with the error's message when \<^verbatim>\<open>Put\<close>
  fails, and 201 with the empty envelope when it succeeds. If decoding panics it writes
  no response and makes no call to the storage.
\<close>

lemma handle_POST:
  assumes "Method r = ''POST''" and "path = TrimPrefix (URLPath r) ''/v1''"
    and "entry = \<lparr>Key = EnsureTrailingSlash env path @ Chamber.Name c,
                   StorageEntry.Value = take n (Body r)\<rparr>"
  shows
    "(ReadInterfaceWith env (Body r) = (n, Returns (Inl err)) \<longrightarrow>
        response (handle env strg r s) =
          Some \<lparr>ContentType = ''application/json'', StatusCode = 400,
                Envelope = \<lparr>Data = None,
                  OperationResponse.Error =
                    (if IsEOF err then ''Request body must not be empty''
                     else ''Bad Request'')\<rparr>\<rparr> \<and>
        calls (handle env strg r s) = [] \<and>
        backend (handle env strg r s) = s) \<and>
     (ReadInterfaceWith env (Body r) = (n, Returns (Inr c)) \<longrightarrow>
        calls (handle env strg r s) = [PutCall entry] \<and>
        (\<forall>e s'. Put strg entry s = (Some e, s') \<longrightarrow>
           response (handle env strg r s) =
             Some \<lparr>ContentType = ''application/json'', StatusCode = 500,
                   Envelope = \<lparr>Data = None, OperationResponse.Error = go_error.Error e\<rparr>\<rparr> \<and>
           backend (handle env strg r s) = s') \<and>
        (\<forall>s'. Put strg entry s = (None, s') \<longrightarrow>
           response (handle env strg r s) =
             Some \<lparr>ContentType = ''application/json'', StatusCode = 201,
                   Envelope = \<lparr>Data = None, OperationResponse.Error = []\<rparr>\<rparr> \<and>
           backend (handle env strg r s) = s')) \<and>
     (ReadInterfaceWith env (Body r) = (n, Panics) \<longrightarrow>
        response (handle env strg r s) = None \<and>
        calls (handle env strg r s) = [] \<and>
        backend (handle env strg r s) = s)"
proof -
  have m: "Method r \<noteq> ''GET''"
    using assms(1) by simp
  have bad: "ReadInterfaceWith env (Body r) = (n, Returns (Inl err)) \<longrightarrow>
        response (handle env strg r s) =
          Some \<lparr>ContentType = ''application/json'', StatusCode = 400,
                Envelope = \<lparr>Data = None,
                  OperationResponse.Error =
                    (if IsEOF err then ''Request body must not be empty''
                     else ''Bad Request'')\<rparr>\<rparr> \<and>
        calls (handle env strg r s) = [] \<and>
        backend (handle env strg r s) = s"
    using assms m
    by (simp add: handle_def Let_def handleResponse_eq StatusBadRequest_def StatusText_def)
  have panic: "ReadInterfaceWith env (Body r) = (n, Panics) \<longrightarrow>
        response (handle env strg r s) = None \<and>
        calls (handle env strg r s) = [] \<and>
        backend (handle env strg r s) = s"
    using assms m by (simp add: handle_def Let_def)
  have good: "ReadInterfaceWith env (Body r) = (n, Returns (Inr c)) \<longrightarrow>
        calls (handle env strg r s) = [PutCall entry] \<and>
        (\<forall>e s'. Put strg entry s = (Some e, s') \<longrightarrow>
           response (handle env strg r s) =
             Some \<lparr>ContentType = ''application/json'', StatusCode = 500,
                   Envelope = \<lparr>Data = None, OperationResponse.Error = go_error.Error e\<rparr>\<rparr> \<and>
           backend (handle env strg r s) = s') \<and>
        (\<forall>s'. Put strg entry s = (None, s') \<longrightarrow>
           response (handle env strg r s) =
             Some \<lparr>ContentType = ''application/json'', StatusCode = 201,
                   Envelope = \<lparr>Data = None, OperationResponse.Error = []\<rparr>\<rparr> \<and>
           backend (handle env strg r s) = s')"
  proof
    assume rd: "ReadInterfaceWith env (Body r) = (n, Returns (Inr c))"
    obtain res s'' where put: "Put strg entry s = (res, s'')"
      by (cases "Put strg entry s")
    have c: "calls (handle env strg r s) = [PutCall entry]"
      using assms m rd put by (cases res) (simp_all add: handle_def Let_def)
    have f: "\<forall>e s'. Put strg entry s = (Some e, s') \<longrightarrow>
           response (handle env strg r s) =
             Some \<lparr>ContentType = ''application/json'', StatusCode = 500,
                   Envelope = \<lparr>Data = None, OperationResponse.Error = go_error.Error e\<rparr>\<rparr> \<and>
           backend (handle env strg r s) = s'"
      using assms m rd
      by (simp add: handle_def Let_def handleResponse_eq StatusInternalServerError_def)
    have g: "\<forall>s'. Put strg entry s = (None, s') \<longrightarrow>
           response (handle env strg r s) =
             Some \<lparr>ContentType = ''application/json'', StatusCode = 201,
                   Envelope = \<lparr>Data = None, OperationResponse.Error = []\<rparr>\<rparr> \<and>
           backend (handle env strg r s) = s'"
      using assms m rd
      by (simp add: handle_def Let_def handleResponse_eq StatusCreated_def)
    from c f g show "calls (handle env strg r s) = [PutCall entry] \<and>
        (\<forall>e s'. Put strg entry s = (Some e, s') \<longrightarrow>
           response (handle env strg r s) =
             Some \<lparr>ContentType = ''application/json'', StatusCode = 500,
                   Envelope = \<lparr>Data = None, OperationResponse.Error = go_error.Error e\<rparr>\<rparr> \<and>
           backend (handle env strg r s) = s') \<and>
        (\<forall>s'. Put strg entry s = (None, s') \<longrightarrow>
           response (handle env strg r s) =
             Some \<lparr>ContentType = ''application/json'', StatusCode = 201,
                   Envelope = \<lparr>Data = None, OperationResponse.Error = []\<rparr>\<rparr> \<and>
           backend (handle env strg r s) = s')"
      by blast
  qed
  from bad good panic show ?thesis by blast
qed

lemma handle_POST_examples:
  "response (handle wholeBody memoryStorage (postRequest ''/v1/acme/'' []) []) =
     Some \<lparr>ContentType = ''application/json'', StatusCode = 400,
           Envelope = \<lparr>Data = None,
                       OperationResponse.Error = ''Request body must not be empty''\<rparr>\<rparr> \<and>
   calls (handle wholeBody memoryStorage (postRequest ''/v1/acme/'' []) []) = [] \<and>
   calls (handle wholeBody memoryStorage (postRequest ''/v1/acme/'' billingBytes) []) =
     [PutCall \<lparr>Key = ''/acme/billing'', StorageEntry.Value = billingBytes\<rparr>] \<and>
   response (handle wholeBody memoryStorage (postRequest ''/v1/acme/'' billingBytes) []) =
     Some \<lparr>ContentType = ''application/json'', StatusCode = 201,
           Envelope = \<lparr>Data = None, OperationResponse.Error = []\<rparr>\<rparr> \<and>
   backend (handle wholeBody memoryStorage (postRequest ''/v1/acme/'' billingBytes) []) =
     [(''/acme/billing'', billingBytes)] \<and>
   response (handle wholeBody brokenStorage (postRequest ''/v1/acme/'' billingBytes) []) =
     Some \<lparr>ContentType = ''application/json'', StatusCode = 500,
           Envelope = \<lparr>Data = None, OperationResponse.Error = ''disk failure''\<rparr>\<rparr>"
proof -
  have m: "Method (postRequest u b) = ''POST''" for u b
    by (simp add: postRequest_def)
  have p: "''/acme/'' = TrimPrefix (URLPath (postRequest ''/v1/acme/'' b)) ''/v1''" for b
    by (simp add: postRequest_def TrimPrefix_def HasPrefix_def)
  have b: "Body (postRequest u b) = b" for u b
    by (simp add: postRequest_def)
  have len: "length billingBytes = 31"
    by (simp add: billingBytes_def billingDocument_def quoted_def)
  then have ne: "billingBytes \<noteq> []"
    by auto
  have rd0: "ReadInterfaceWith wholeBody (Body (postRequest ''/v1/acme/'' [])) =
      (0, Returns (Inl eofError))"
    by (simp add: wholeBody_def postRequest_def)
  have rd1: "ReadInterfaceWith wholeBody (Body (postRequest ''/v1/acme/'' billingBytes)) =
      (31, Returns (Inr billingChamber))"
    using len ne by (simp add: wholeBody_def postRequest_def)
  have eof: "IsEOF eofError"
    by (simp add: eofError_def)
  have entry: "\<lparr>Key = ''/acme/billing'', StorageEntry.Value = billingBytes\<rparr> =
      \<lparr>Key = EnsureTrailingSlash wholeBody ''/acme/'' @ Chamber.Name billingChamber,
       StorageEntry.Value = take 31 (Body (postRequest ''/v1/acme/'' billingBytes))\<rparr>"
    using len by (simp add: wholeBody_def ensureTrailingSlash_def billingChamber_def b)
  have put1: "Put memoryStorage \<lparr>Key = ''/acme/billing'', StorageEntry.Value = billingBytes\<rparr> [] =
      (None, [(''/acme/billing'', billingBytes)])"
    by (simp add: memoryStorage_def)
  have put2: "Put brokenStorage \<lparr>Key = ''/acme/billing'', StorageEntry.Value = billingBytes\<rparr> [] =
      (Some diskError, [])"
    by (simp add: brokenStorage_def)
  have msg: "go_error.Error diskError = ''disk failure''"
    by (simp add: diskError_def)
  note t0 = handle_POST [OF m [of "''/v1/acme/''" "[]"] p [of "[]"] refl,
      where env = wholeBody and strg = memoryStorage and s = "[]" and n = 0
        and err = eofError]
  note t1 = handle_POST [OF m [of "''/v1/acme/''" billingBytes] p [of billingBytes] entry,
      where strg = memoryStorage and s = "[]"]
  note t2 = handle_POST [OF m [of "''/v1/acme/''" billingBytes] p [of billingBytes] entry,
      where strg = brokenStorage and s = "[]"]
  have r0: "response (handle wholeBody memoryStorage (postRequest ''/v1/acme/'' []) []) =
     Some \<lparr>ContentType = ''application/json'', StatusCode = 400,
           Envelope = \<lparr>Data = None,
                       OperationResponse.Error = ''Request body must not be empty''\<rparr>\<rparr> \<and>
     calls (handle wholeBody memoryStorage (postRequest ''/v1/acme/'' []) []) = []"
    using t0 rd0 eof by simp
  have r1: "calls (handle wholeBody memoryStorage (postRequest ''/v1/acme/'' billingBytes) []) =
       [PutCall \<lparr>Key = ''/acme/billing'', StorageEntry.Value = billingBytes\<rparr>] \<and>
     response (handle wholeBody memoryStorage (postRequest ''/v1/acme/'' billingBytes) []) =
       Some \<lparr>ContentType = ''application/json'', StatusCode = 201,
             Envelope = \<lparr>Data = None, OperationResponse.Error = []\<rparr>\<rparr> \<and>
     backend (handle wholeBody memoryStorage (postRequest ''/v1/acme/'' billingBytes) []) =
       [(''/acme/billing'', billingBytes)]"
    using t1 rd1 put1 by blast
  have r2: "response (handle wholeBody brokenStorage (postRequest ''/v1/acme/'' billingBytes) []) =
     Some \<lparr>ContentType = ''application/json'', StatusCode = 500,
           Envelope = \<lparr>Data = None, OperationResponse.Error = ''disk failure''\<rparr>\<rparr>"
    using t2 rd1 put2 msg by (metis (no_types, lifting))
  from r0 r1 r2 show ?thesis by blast
qed

text \<open>
  Claim C7: for every \<^verbatim>\<open>POST\<close> request the handler answers 400 when decoding the body
  fails, and otherwise stores the entry and answers 500 or 201. On a body that holds a
  toggle with a null value it does neither: decoding panics in \<^verbatim>\<open>IsValidValue\<close>, no
  response is written and nothing is stored.
\<close>

theorem handle_POST_null_toggle_panics:
  "snd (Toggle_UnmarshalJSON (\<lambda>x. Inr nullValueToggle) plainToggle nullDocumentBytes) = Panics \<and>
   ReadInterfaceWith validating (Body (postRequest ''/v1/acme/'' nullDocumentBytes)) =
     (89, Panics) \<and>
   response (handle validating memoryStorage
     (postRequest ''/v1/acme/'' nullDocumentBytes) []) = None \<and>
   calls (handle validating memoryStorage
     (postRequest ''/v1/acme/'' nullDocumentBytes) []) = [] \<and>
   backend (handle validating memoryStorage
     (postRequest ''/v1/acme/'' nullDocumentBytes) []) = []"
proof -
  have len: "length nullDocumentBytes = 89"
    by (simp add: nullDocumentBytes_def nullDocument_def quoted_def)
  then have ne: "nullDocumentBytes \<noteq> []"
    by auto
  have rd: "ReadInterfaceWith validating (Body (postRequest ''/v1/acme/'' nullDocumentBytes)) =
     (89, Panics)"
    using len ne by (simp add: validating_def postRequest_def decodeKnown_nullDocument)
  have m: "Method (postRequest ''/v1/acme/'' nullDocumentBytes) = ''POST''"
    by (simp add: postRequest_def)
  have o: "response (handle validating memoryStorage
       (postRequest ''/v1/acme/'' nullDocumentBytes) []) = None \<and>
     calls (handle validating memoryStorage
       (postRequest ''/v1/acme/'' nullDocumentBytes) []) = [] \<and>
     backend (handle validating memoryStorage
       (postRequest ''/v1/acme/'' nullDocumentBytes) []) = []"
    using rd m by (simp add: handle_def Let_def)
  from nullDocument_panics rd o show ?thesis by blast
qed

text \<open>
  Claim C10, as stated: after a successful \<^verbatim>\<open>POST\<close> the stored bytes are exactly the
  bytes of the request body. They are the bytes that went through the tee, and a decoder
  that returns after the first block of a longer body leaves the rest unread: of the 631
  bytes of the billing document followed by 600 spaces, the first 512 are stored.
\<close>

theorem handle_POST_stores_whole_body_counterexample:
  "map_option StatusCode (response (handle firstBlock memoryStorage
      (postRequest ''/v1/acme'' paddedBody) [])) = Some 201 \<and>
   calls (handle firstBlock memoryStorage (postRequest ''/v1/acme'' paddedBody) []) =
     [PutCall \<lparr>Key = ''/acme/billing'', StorageEntry.Value = take 512 paddedBody\<rparr>] \<and>
   length (take 512 paddedBody) = 512 \<and>
   length (Body (postRequest ''/v1/acme'' paddedBody)) = 631 \<and>
   take 512 paddedBody \<noteq> Body (postRequest ''/v1/acme'' paddedBody)"
  by code_simp

text \<open>
  Claim C10, amended. After a successful decoding the stored bytes are exactly the bytes
  \<^verbatim>\<open>ReadInterfaceWith\<close> has read from the request body through the tee, a prefix of the
  body that does not depend on the decoded chamber; they are the whole body when the
  decoder has read it to its end.
\<close>

theorem handle_POST_stores_bytes_read:
  assumes "Method r = ''POST''"
    and "ReadInterfaceWith env (Body r) = (n, Returns (Inr c))"
  shows
    "(\<exists>key. calls (handle env strg r s) =
        [PutCall \<lparr>Key = key, StorageEntry.Value = take n (Body r)\<rparr>]) \<and>
     (length (Body r) \<le> n \<longrightarrow>
        (\<exists>key. calls (handle env strg r s) =
           [PutCall \<lparr>Key = key, StorageEntry.Value = Body r\<rparr>]))"
proof -
  have m: "Method r \<noteq> ''GET''"
    using assms(1) by simp
  let ?entry = "\<lparr>Key = EnsureTrailingSlash env (TrimPrefix (URLPath r) ''/v1'') @ Chamber.Name c,
                  StorageEntry.Value = take n (Body r)\<rparr>"
  obtain res s'' where put: "Put strg ?entry s = (res, s'')"
    by (cases "Put strg ?entry s")
  have c: "calls (handle env strg r s) = [PutCall ?entry]"
    using assms m put by (cases res) (simp_all add: handle_def Let_def)
  then show ?thesis by auto
qed

text \<open>
  A decoder that reads the whole billing document stores it as received; one that stops
  after 512 bytes stores those.
\<close>

theorem handle_POST_stores_bytes_read_witness:
  "ReadInterfaceWith wholeBody (Body (postRequest ''/v1/acme/'' billingBytes)) =
     (31, Returns (Inr billingChamber)) \<and>
   length (Body (postRequest ''/v1/acme/'' billingBytes)) \<le> 31 \<and>
   (\<exists>key. calls (handle wholeBody memoryStorage (postRequest ''/v1/acme/'' billingBytes) []) =
      [PutCall \<lparr>Key = key, StorageEntry.Value = billingBytes\<rparr>]) \<and>
   ReadInterfaceWith firstBlock (Body (postRequest ''/v1/acme/'' paddedBody)) =
     (512, Returns (Inr billingChamber)) \<and>
   (\<exists>key. calls (handle firstBlock memoryStorage (postRequest ''/v1/acme/'' paddedBody) []) =
      [PutCall \<lparr>Key = key, StorageEntry.Value = take 512 paddedBody\<rparr>])"
proof -
  have m: "\<And>u b. Method (postRequest u b) = ''POST''"
    by (simp add: postRequest_def)
  have b: "Body (postRequest u b) = b" for u b
    by (simp add: postRequest_def)
  have len: "length billingBytes = 31"
    by (simp add: billingBytes_def billingDocument_def quoted_def)
  then have ne: "billingBytes \<noteq> []"
    by auto
  have rd1: "ReadInterfaceWith wholeBody (Body (postRequest ''/v1/acme/'' billingBytes)) =
      (31, Returns (Inr billingChamber))"
    using len ne by (simp add: wholeBody_def postRequest_def)
  have rd2: "ReadInterfaceWith firstBlock (Body (postRequest ''/v1/acme/'' paddedBody)) =
      (512, Returns (Inr billingChamber))"
    using len ne by (simp add: firstBlock_def postRequest_def paddedBody_def)
  have l: "length (Body (postRequest ''/v1/acme/'' billingBytes)) \<le> 31"
    using len by (simp add: b)
  have r1: "\<exists>key. calls (handle wholeBody memoryStorage
        (postRequest ''/v1/acme/'' billingBytes) []) =
      [PutCall \<lparr>Key = key, StorageEntry.Value = billingBytes\<rparr>]"
    using handle_POST_stores_bytes_read [OF m rd1, of memoryStorage "[]"] l
    by (simp add: b)
  have r2: "\<exists>key. calls (handle firstBlock memoryStorage
        (postRequest ''/v1/acme/'' paddedBody) []) =
      [PutCall \<lparr>Key = key, StorageEntry.Value = take 512 paddedBody\<rparr>]"
    using handle_POST_stores_bytes_read [OF m rd2, of memoryStorage "[]"]
    by (simp add: b)
  from rd1 l r1 rd2 r2 show ?thesis by blast
qed

section \<open>The offline build\<close>

lemma compileChildren_eq:
  "compileChildren inh pt cs =
     (map (\<lambda>child. fst (compile inh (assignToggles child (inh child pt)))) cs,
      concat (map (\<lambda>child. snd (compile inh (assignToggles child (inh child pt)))) cs))"
  by (induction cs) (simp_all add: Let_def case_prod_beta)

lemma compile_eq:
  "compile inh parent =
     (assignChildren parent
        (map (\<lambda>child. fst (compile inh (assignToggles child (inh child (Toggles parent)))))
           (Children parent)),
      (if Buildable parent \<or> App parent
       then [(''./'' @ Chamber.Name parent @ ''.json'', parent)] else []) @
      concat (map (\<lambda>child. snd (compile inh (assignToggles child (inh child (Toggles parent)))))
                (Children parent)))"
  by (subst compile.simps) (simp add: compileChildren_eq Let_def)

lemma Toggles_assignChildren: "Toggles (assignChildren c cs) = Toggles c"
  by (cases c) simp

lemma Children_assignChildren: "Children (assignChildren c cs) = cs"
  by (cases c) simp

lemma Toggles_assignToggles: "Toggles (assignToggles c ts) = ts"
  by (cases c) simp

lemma assignToggles_same: "assignToggles c (Toggles c) = c"
  by (cases c) simp

text \<open>
  Started on a node whose toggles are the current set, \<^verbatim>\<open>compile\<close> writes the artifacts of
  the specification's traversal, with the same toggle sets and in the same order.
\<close>

lemma compile_written_refines:
  "map (\<lambda>(file, c). (file, Toggles c)) (snd (compile inh (assignToggles node current))) =
   map (\<lambda>(name, ts). (''./'' @ name, ts)) (spec_compile inh current node)"
proof (induction node arbitrary: current)
  case (Chamber n b a ts cs)
  have kids: "map (\<lambda>(file, c). (file, Toggles c))
        (snd (compile inh (assignToggles child (inh child current)))) =
      map (\<lambda>(name, ts). (''./'' @ name, ts)) (spec_compile inh (inh child current) child)"
    if "child \<in> set cs" for child
    using Chamber.IH [OF that] .
  have "map (\<lambda>(file, c). (file, Toggles c))
        (concat (map (\<lambda>child. snd (compile inh (assignToggles child (inh child current)))) cs)) =
      map (\<lambda>(name, ts). (''./'' @ name, ts))
        (concat (map (\<lambda>child. spec_compile inh (inh child current) child) cs))"
    using kids by (induction cs) simp_all
  then show ?case
    by (subst compile_eq) simp
qed

text \<open>
  Claim C8. \<^verbatim>\<open>compile\<close> is the depth-first traversal of the specification: the files it
  writes and the toggle sets of the chambers written are the artifacts
  \<^verbatim>\<open><name>.json\<close> (in the current directory) and toggle sets of \<open>spec_compile\<close> started
  with the root's own toggles, in the same order. At a node it first writes the node, if
  buildable or an app, as it is at that moment, and then handles the children in stored
  order, each after its toggles have been replaced by
  \<^verbatim>\<open>child.InheritWith(parent.Toggles)\<close>. The root keeps its toggles, and after the walk
  every child of the root holds the inherited map.
\<close>

theorem compile_depth_first:
  "map (\<lambda>(file, c). (file, Toggles c)) (snd (compile InheritWith root)) =
     map (\<lambda>(name, ts). (''./'' @ name, ts)) (spec_compile InheritWith (Toggles root) root) \<and>
   snd (compile InheritWith root) =
     (if Buildable root \<or> App root
      then [(''./'' @ Chamber.Name root @ ''.json'', root)] else []) @
     concat (map (\<lambda>child. snd (compile InheritWith
                    (assignToggles child (InheritWith child (Toggles root)))))
               (Children root)) \<and>
   Toggles (fst (compile InheritWith root)) = Toggles root \<and>
   Children (fst (compile InheritWith root)) =
     map (\<lambda>child. fst (compile InheritWith
            (assignToggles child (InheritWith child (Toggles root)))))
       (Children root) \<and>
   map Toggles (Children (fst (compile InheritWith root))) =
     map (\<lambda>child. InheritWith child (Toggles root)) (Children root)"
proof -
  have a: "map (\<lambda>(file, c). (file, Toggles c)) (snd (compile InheritWith root)) =
     map (\<lambda>(name, ts). (''./'' @ name, ts)) (spec_compile InheritWith (Toggles root) root)"
    using compile_written_refines [of InheritWith root "Toggles root"]
    by (simp add: assignToggles_same)
  have b: "snd (compile InheritWith root) =
     (if Buildable root \<or> App root
      then [(''./'' @ Chamber.Name root @ ''.json'', root)] else []) @
     concat (map (\<lambda>child. snd (compile InheritWith
                    (assignToggles child (InheritWith child (Toggles root)))))
               (Children root))"
    by (subst compile_eq) simp
  have c: "Toggles (fst (compile InheritWith root)) = Toggles root"
    by (subst compile_eq) (simp add: Toggles_assignChildren)
  have d: "Children (fst (compile InheritWith root)) =
     map (\<lambda>child. fst (compile InheritWith
            (assignToggles child (InheritWith child (Toggles root)))))
       (Children root)"
    by (subst compile_eq) (simp add: Children_assignChildren)
  have "Toggles (fst (compile InheritWith x)) = Toggles x" for x
    by (subst compile_eq) (simp add: Toggles_assignChildren)
  then have e: "map Toggles (Children (fst (compile InheritWith root))) =
     map (\<lambda>child. InheritWith child (Toggles root)) (Children root)"
    unfolding d by (simp add: Toggles_assignToggles comp_def)
  from a b c d e show ?thesis by blast
qed

text \<open>
  On the example tree the root, the app and the library are written in this order, the
  leaf is not; the root's toggle \<open>a\<close> reaches every artifact, and the app's toggle \<open>b\<close>
  only the app's.
\<close>

theorem compile_depth_first_witness:
  "map fst (snd (compile inheritWith rootChamber)) =
     [''./root.json'', ''./app.json'', ''./lib.json''] \<and>
   map (\<lambda>w. Toggles (snd w) ''a'') (snd (compile inheritWith rootChamber)) =
     [Some plainToggle, Some plainToggle, Some plainToggle] \<and>
   map (\<lambda>w. Toggles (snd w) ''b'') (snd (compile inheritWith rootChamber)) =
     [None, Some scenarioToggle, None] \<and>
   Toggles (fst (compile inheritWith rootChamber)) ''b'' = None \<and>
   map (\<lambda>c. Toggles c ''b'') (Children (fst (compile inheritWith rootChamber))) =
     [Some scenarioToggle, None]"
proof -
  note t = compile_depth_first [of inheritWith rootChamber]
  have sc: "spec_compile inheritWith (Toggles rootChamber) rootChamber =
      [(''root.json'', [''a'' \<mapsto> plainToggle]),
       (''app.json'', [''a'' \<mapsto> plainToggle, ''b'' \<mapsto> scenarioToggle]),
       (''lib.json'', [''a'' \<mapsto> plainToggle])]"
    by (simp add: rootChamber_def appChamber_def libChamber_def leafChamber_def
        inheritWith_def)
  from t [THEN conjunct1] have w: "map (\<lambda>(file, c). (file, Toggles c)) (snd (compile inheritWith rootChamber)) =
      [(''./root.json'', [''a'' \<mapsto> plainToggle]),
       (''./app.json'', [''a'' \<mapsto> plainToggle, ''b'' \<mapsto> scenarioToggle]),
       (''./lib.json'', [''a'' \<mapsto> plainToggle])]"
    unfolding sc by simp
  have f: "map fst (snd (compile inheritWith rootChamber)) =
      map fst (map (\<lambda>(file, c). (file, Toggles c)) (snd (compile inheritWith rootChamber)))"
    by (simp add: case_prod_beta comp_def)
  have a: "map (\<lambda>w. Toggles (snd w) k) (snd (compile inheritWith rootChamber)) =
      map (\<lambda>p. snd p k)
        (map (\<lambda>(file, c). (file, Toggles c)) (snd (compile inheritWith rootChamber)))" for k
    by (simp add: case_prod_beta comp_def)
  have r1: "map fst (snd (compile inheritWith rootChamber)) =
      [''./root.json'', ''./app.json'', ''./lib.json'']"
    unfolding f w by simp
  have r2: "map (\<lambda>w. Toggles (snd w) ''a'') (snd (compile inheritWith rootChamber)) =
      [Some plainToggle, Some plainToggle, Some plainToggle]"
    unfolding a w by simp
  have r3: "map (\<lambda>w. Toggles (snd w) ''b'') (snd (compile inheritWith rootChamber)) =
      [None, Some scenarioToggle, None]"
    unfolding a w by simp
  from t have "Toggles (fst (compile inheritWith rootChamber)) = Toggles rootChamber"
    by blast
  then have r4: "Toggles (fst (compile inheritWith rootChamber)) ''b'' = None"
    by (simp add: rootChamber_def)
  from t have "map Toggles (Children (fst (compile inheritWith rootChamber))) =
      map (\<lambda>child. inheritWith child (Toggles rootChamber)) (Children rootChamber)"
    by blast
  then have "map (\<lambda>ts. ts ''b'') (map Toggles (Children (fst (compile inheritWith rootChamber)))) =
      [Some scenarioToggle, None]"
    by (simp add: rootChamber_def appChamber_def libChamber_def inheritWith_def)
  then have r5: "map (\<lambda>c. Toggles c ''b'') (Children (fst (compile inheritWith rootChamber))) =
      [Some scenarioToggle, None]"
    by (simp add: comp_def)
  from r1 r2 r3 r4 r5 show ?thesis by blast
qed

end
